theory Spec2Isabelle
  imports Complex_Main
begin

section \<open>Observable properties and the button model base\<close>

text \<open>
  The widgets keep their state in observable properties. A property holds one value;
  \<open>set\<close> with the value it already holds does nothing, \<open>set\<close> with another value stores
  it and then calls the property's listeners with the new value, and \<open>link\<close> registers a
  listener and calls it once, at once, with the current value. The models below are
  written with explicit state passing: a setter takes the state and returns the state
  after all the listeners that the source registers on that property have run.
\<close>

text \<open>
  Modelled from the spec: ButtonModel (SUN/buttons/ButtonModel), the base of the push
  button and sticky toggle models, is not among the sources. The spec gives it the
  boolean flags over, down and enabled; a new button is idle, that is not over, not down
  and enabled.
\<close>

record ButtonModel =
  over :: bool
  down :: bool
  enabled :: bool

section \<open>PushButtonModel\<close>

subsection \<open>Array operations on the listener list\<close>

text \<open>\<open>Array.prototype.indexOf\<close>: the first index holding the element, or -1.\<close>

fun indexOf :: "'a list \<Rightarrow> 'a \<Rightarrow> int" where
  "indexOf [] x = -1"
| "indexOf (y # ys) x =
     (if y = x then 0 else (let i = indexOf ys x in if i = -1 then -1 else i + 1))"

text \<open>\<open>splice( i, 1 )\<close> for an index inside the array: removes the element at \<open>i\<close>.\<close>

definition splice1 :: "'a list \<Rightarrow> nat \<Rightarrow> 'a list" where
  "splice1 xs i = take i xs @ drop (Suc i) xs"

subsection \<open>The hold timer\<close>

text \<open>
  Modelled from the spec: CallbackTimer (SUN/CallbackTimer) is not among the sources. The
  spec speaks of the hold timer's running/stopped flag and of a repeated fire while the
  button is held, cancelled on release or disable; the push button's source calls
  \<open>start()\<close> and \<open>stop( fire )\<close> and comments \<open>stop( false )\<close> with "Stop the timer, don't
  fire if we haven't already". So: a timer is running or stopped and remembers whether it
  has fired since it was started; \<open>start\<close> on a stopped timer makes it run; an elapsed
  delay or interval (\<open>timer_tick\<close>) calls the callback only while it runs; \<open>stop\<close> on a
  running timer stops it and calls the callback when asked to and not fired yet; \<open>stop\<close>
  on a stopped timer does nothing. Each operation returns the timer and whether the
  callback is to be called.
\<close>

record CallbackTimer =
  running :: bool
  fired :: bool

definition timer_new :: CallbackTimer where
  "timer_new = \<lparr>running = False, fired = False\<rparr>"

definition timer_start :: "CallbackTimer \<Rightarrow> CallbackTimer" where
  "timer_start t = (if running t then t else t\<lparr>running := True, fired := False\<rparr>)"

definition timer_stop :: "bool \<Rightarrow> CallbackTimer \<Rightarrow> CallbackTimer \<times> bool" where
  "timer_stop fire t =
     (if running t
      then (if fire \<and> \<not> fired t then (t\<lparr>running := False, fired := True\<rparr>, True)
            else (t\<lparr>running := False\<rparr>, False))
      else (t, False))"

definition timer_tick :: "CallbackTimer \<Rightarrow> CallbackTimer \<times> bool" where
  "timer_tick t = (if running t then (t\<lparr>fired := True\<rparr>, True) else (t, False))"

subsection \<open>The model\<close>

record 'l PushButtonOptions =
  fireOnDown :: bool
  listener :: "'l option"
  fireOnHold :: bool
  fireOnHoldDelay :: nat
  fireOnHoldInterval :: nat

text \<open>
  The options after the constructor's \<open>_.extend\<close>; the defaults are no fireOnDown, no
  listener, no fireOnHold, a delay of 400 and an interval of 100 milliseconds.
\<close>

text \<open>
  The state of a push button model: the three flags of the base, the options the
  constructor's closures captured, the listener array and the timer (absent unless
  fireOnHold). Three more fields record what happened, for the theorems to speak about:
  \<open>fireCount\<close> counts the calls of \<open>fire()\<close>, \<open>timerFireCount\<close> those of them made by the
  timer's callback, and \<open>calls\<close> lists the listeners called, in order.
\<close>

record 'l PushButtonModel = ButtonModel +
  options :: "'l PushButtonOptions"
  listeners :: "'l list"
  timer :: "CallbackTimer option"
  fireCount :: nat
  timerFireCount :: nat
  calls :: "'l list"

text \<open>
  A listener is a function of the client. What a listener does to the model when it is
  called is given by a behaviour: the calls it makes of \<open>addListener\<close> and
  \<open>removeListener\<close> and the values it sets \<open>overProperty\<close> and \<open>enabledProperty\<close> to,
  in order. A listener that sets \<open>downProperty\<close> or calls \<open>fire()\<close> itself would enter
  \<open>fire\<close> again from inside \<open>fire\<close>, without a bound; such listeners are not covered.
\<close>

datatype 'l listenerAction =
    AddListener 'l | RemoveListener 'l | SetOverAction bool | SetEnabledAction bool

type_synonym 'l behaviour = "'l \<Rightarrow> 'l listenerAction list"

definition addListener :: "'l \<Rightarrow> 'l PushButtonModel \<Rightarrow> 'l PushButtonModel" where
  "addListener l s =
     (if indexOf (listeners s) l = -1 then s\<lparr>listeners := listeners s @ [l]\<rparr> else s)"

definition removeListener :: "'l \<Rightarrow> 'l PushButtonModel \<Rightarrow> 'l PushButtonModel" where
  "removeListener l s =
     (let i = indexOf (listeners s) l
      in if i \<noteq> -1 then s\<lparr>listeners := splice1 (listeners s) (nat i)\<rparr> else s)"

text \<open>The listener linked to \<open>enabledProperty\<close>.\<close>

definition enabledListener :: "bool \<Rightarrow> 'l PushButtonModel \<Rightarrow> 'l PushButtonModel" where
  "enabledListener e s =
     (case timer s of
        Some t \<Rightarrow> (if \<not> e then s\<lparr>timer := Some (fst (timer_stop False t))\<rparr> else s)
      | None \<Rightarrow> s)"

text \<open>
  The setters of \<open>overProperty\<close>, on which this model has no listener, and of
  \<open>enabledProperty\<close>.
\<close>

definition setOver :: "bool \<Rightarrow> 'l PushButtonModel \<Rightarrow> 'l PushButtonModel" where
  "setOver b s = (if over s = b then s else s\<lparr>over := b\<rparr>)"

definition setEnabled :: "bool \<Rightarrow> 'l PushButtonModel \<Rightarrow> 'l PushButtonModel" where
  "setEnabled b s = (if enabled s = b then s else enabledListener b (s\<lparr>enabled := b\<rparr>))"

fun perform :: "'l listenerAction \<Rightarrow> 'l PushButtonModel \<Rightarrow> 'l PushButtonModel" where
  "perform (AddListener l) s = addListener l s"
| "perform (RemoveListener l) s = removeListener l s"
| "perform (SetOverAction b) s = setOver b s"
| "perform (SetEnabledAction b) s = setEnabled b s"

text \<open>Calling one listener: the call is recorded, then the listener's actions run.\<close>

definition callListener :: "'l behaviour \<Rightarrow> 'l PushButtonModel \<Rightarrow> 'l \<Rightarrow> 'l PushButtonModel" where
  "callListener beh s l = foldl (\<lambda>s' a. perform a s') (s\<lparr>calls := calls s @ [l]\<rparr>) (beh l)"

text \<open>
  \<open>fire\<close>: \<open>copy = this.listeners.slice( 0 )\<close>, then \<open>copy.forEach\<close>. The fold runs over the
  list as it is when \<open>fire\<close> begins, while the state it threads carries the live array.
\<close>

definition fire :: "'l behaviour \<Rightarrow> 'l PushButtonModel \<Rightarrow> 'l PushButtonModel" where
  "fire beh s =
     (let copy = listeners s
      in foldl (callListener beh) (s\<lparr>fireCount := fireCount s + 1\<rparr>) copy)"

text \<open>The timer's callback is \<open>this.fire.bind( this )\<close>.\<close>

definition timerCallback :: "'l behaviour \<Rightarrow> 'l PushButtonModel \<Rightarrow> 'l PushButtonModel" where
  "timerCallback beh s = fire beh (s\<lparr>timerFireCount := timerFireCount s + 1\<rparr>)"

text \<open>The listener linked to \<open>downProperty\<close>.\<close>

definition downListener :: "'l behaviour \<Rightarrow> bool \<Rightarrow> 'l PushButtonModel \<Rightarrow> 'l PushButtonModel" where
  "downListener beh d s =
     (if d then
        (if enabled s then
           (let s1 = (if fireOnDown (options s) then fire beh s else s)
            in case timer s1 of
                 Some t \<Rightarrow> s1\<lparr>timer := Some (timer_start t)\<rparr>
               | None \<Rightarrow> s1)
         else s)
      else
        (let fire_flag = (\<not> fireOnDown (options s) \<and> over s \<and> enabled s)
         in case timer s of
              Some t \<Rightarrow>
                (let (t', cb) = timer_stop fire_flag t;
                     s1 = s\<lparr>timer := Some t'\<rparr>
                 in if cb then timerCallback beh s1 else s1)
            | None \<Rightarrow> (if fire_flag then fire beh s else s)))"

text \<open>
  The constructor: the base's flags, the listener array with the optional listener of
  the options, the timer when fireOnHold, and the two \<open>link\<close> calls, each of which runs
  its listener once with the current value.
\<close>

definition PushButtonModel_new :: "'l behaviour \<Rightarrow> 'l PushButtonOptions \<Rightarrow> 'l PushButtonModel" where
  "PushButtonModel_new beh opts =
     (let s0 = \<lparr>over = False, down = False, enabled = True,
                options = opts,
                listeners = (case listener opts of None \<Rightarrow> [] | Some l \<Rightarrow> [l]),
                timer = (if fireOnHold opts then Some timer_new else None),
                fireCount = 0, timerFireCount = 0, calls = []\<rparr>;
          s1 = downListener beh (down s0) s0
      in enabledListener (enabled s1) s1)"

text \<open>The setter of \<open>downProperty\<close>, with the listener of this model.\<close>

definition setDown :: "'l behaviour \<Rightarrow> bool \<Rightarrow> 'l PushButtonModel \<Rightarrow> 'l PushButtonModel" where
  "setDown beh b s = (if down s = b then s else downListener beh b (s\<lparr>down := b\<rparr>))"

text \<open>An elapsed delay or interval of the timer.\<close>

definition timerTick :: "'l behaviour \<Rightarrow> 'l PushButtonModel \<Rightarrow> 'l PushButtonModel" where
  "timerTick beh s =
     (case timer s of
        Some t \<Rightarrow>
          (let (t', cb) = timer_tick t;
               s1 = s\<lparr>timer := Some t'\<rparr>
           in if cb then timerCallback beh s1 else s1)
      | None \<Rightarrow> s)"

text \<open>What can happen to a push button model, and a history of such operations.\<close>

datatype 'l operation =
    SetOver bool | SetDown bool | SetEnabled bool | TimerTick
  | AddL 'l | RemoveL 'l | Fire

fun step :: "'l behaviour \<Rightarrow> 'l PushButtonModel \<Rightarrow> 'l operation \<Rightarrow> 'l PushButtonModel" where
  "step beh s (SetOver b) = setOver b s"
| "step beh s (SetDown b) = setDown beh b s"
| "step beh s (SetEnabled b) = setEnabled b s"
| "step beh s TimerTick = timerTick beh s"
| "step beh s (AddL l) = addListener l s"
| "step beh s (RemoveL l) = removeListener l s"
| "step beh s Fire = fire beh s"

definition run :: "'l behaviour \<Rightarrow> 'l PushButtonModel \<Rightarrow> 'l operation list \<Rightarrow> 'l PushButtonModel" where
  "run beh s ops = foldl (step beh) s ops"

text \<open>
  A history without a new press, from state \<open>s\<close> on: none of its operations sets
  \<open>down\<close> to true on a button that is up and enabled at that moment.
\<close>

fun noPress :: "'l behaviour \<Rightarrow> 'l PushButtonModel \<Rightarrow> 'l operation list \<Rightarrow> bool" where
  "noPress beh s [] = True"
| "noPress beh s (e # es) =
     (\<not> (e = SetDown True \<and> \<not> down s \<and> enabled s) \<and> noPress beh (step beh s e) es)"

text \<open>The hold timer exists and is stopped.\<close>

definition timerStopped :: "'l PushButtonModel \<Rightarrow> bool" where
  "timerStopped s = (case timer s of Some t \<Rightarrow> \<not> running t | None \<Rightarrow> False)"

section \<open>PushButtonInteractionStateProperty\<close>

datatype ButtonInteractionState = IDLE | OVER | PRESSED | DISABLED | DISABLED_PRESSED

text \<open>
  Modelled from the spec: PushButtonInteractionStateProperty
  (SUN/buttons/PushButtonInteractionStateProperty) is not among the sources. The spec
  says that the interaction state is derived from the button model's flags (over, down,
  enabled), recomputed whenever one of them changes and never set from outside. It names
  the five states but not the table from flags to states, so the table is the parameter
  \<open>derivation\<close>, and what is proved holds for every table. The property holds the last computed state in \<open>derivedValue\<close>; the
  flags are those of the button model it listens to.
\<close>

record PushButtonInteractionStateProperty =
  flags :: ButtonModel
  derivedValue :: ButtonInteractionState

datatype flagOperation = OverSet bool | DownSet bool | EnabledSet bool

definition recompute ::
  "(bool \<Rightarrow> bool \<Rightarrow> bool \<Rightarrow> ButtonInteractionState) \<Rightarrow> ButtonModel \<Rightarrow> ButtonInteractionState" where
  "recompute derivation m = derivation (over m) (down m) (enabled m)"

definition InteractionStateProperty_new ::
  "(bool \<Rightarrow> bool \<Rightarrow> bool \<Rightarrow> ButtonInteractionState) \<Rightarrow> PushButtonInteractionStateProperty" where
  "InteractionStateProperty_new derivation =
     (let m = \<lparr>over = False, down = False, enabled = True\<rparr>
      in \<lparr>flags = m, derivedValue = recompute derivation m\<rparr>)"

text \<open>A setter of the button model: an unchanged flag notifies nobody.\<close>

fun flagSet :: "flagOperation \<Rightarrow> ButtonModel \<Rightarrow> ButtonModel" where
  "flagSet (OverSet b) m = m\<lparr>over := b\<rparr>"
| "flagSet (DownSet b) m = m\<lparr>down := b\<rparr>"
| "flagSet (EnabledSet b) m = m\<lparr>enabled := b\<rparr>"

fun flagChanges :: "flagOperation \<Rightarrow> ButtonModel \<Rightarrow> bool" where
  "flagChanges (OverSet b) m = (over m \<noteq> b)"
| "flagChanges (DownSet b) m = (down m \<noteq> b)"
| "flagChanges (EnabledSet b) m = (enabled m \<noteq> b)"

definition derivedStep ::
  "(bool \<Rightarrow> bool \<Rightarrow> bool \<Rightarrow> ButtonInteractionState) \<Rightarrow> PushButtonInteractionStateProperty \<Rightarrow> flagOperation
     \<Rightarrow> PushButtonInteractionStateProperty" where
  "derivedStep derivation p f =
     (if flagChanges f (flags p)
      then (let m = flagSet f (flags p) in \<lparr>flags = m, derivedValue = recompute derivation m\<rparr>)
      else p)"

definition derivedRun ::
  "(bool \<Rightarrow> bool \<Rightarrow> bool \<Rightarrow> ButtonInteractionState) \<Rightarrow> flagOperation list \<Rightarrow> PushButtonInteractionStateProperty" where
  "derivedRun derivation fs = foldl (derivedStep derivation) (InteractionStateProperty_new derivation) fs"

section \<open>Errors\<close>

text \<open>
  A failed \<open>assert\<close>, a thrown \<open>Error\<close>, and the model's own way of saying that a chain
  of listener calls was cut off. Where the source appends a number or an object to the
  message of an assertion, the message here is the fixed text alone.
\<close>

datatype error = AssertionError string | Error string | OutOfFuel

text \<open>
  \<open>assert && assert( cond, message )\<close>: the global \<open>assert\<close> is only there when
  assertions are enabled.
\<close>

definition js_assert :: "bool \<Rightarrow> bool \<Rightarrow> string \<Rightarrow> error + unit" where
  "js_assert assertions cond message =
     (if assertions \<and> \<not> cond then Inl (AssertionError message) else Inr ())"

section \<open>StickyToggleButtonModel\<close>

text \<open>
  The flags of the base, the two values, the value of the bound property, the guard flag
  and a count of the emissions of \<open>toggledEmitter\<close>.
\<close>

record 'v StickyToggleButtonModel = ButtonModel +
  valueUp :: 'v
  valueDown :: 'v
  valueProperty :: 'v
  pressedWhileDownProperty :: bool
  toggledCount :: nat

text \<open>
  The listeners call each other through the properties: \<open>downProperty\<close> notifies
  \<open>downListener\<close>, which may \<open>toggle\<close>, whose listener sets \<open>valueProperty\<close>, which
  notifies \<open>valuePropertyListener\<close>, which sets \<open>downProperty\<close>. Each property set takes
  one unit of fuel, and a chain that runs out of it is \<open>OutOfFuel\<close>. The first argument
  says whether assertions are enabled.
\<close>

fun sticky_setDown :: "bool \<Rightarrow> nat \<Rightarrow> bool \<Rightarrow> 'v StickyToggleButtonModel \<Rightarrow> error + 'v StickyToggleButtonModel"
  and sticky_downListener :: "bool \<Rightarrow> nat \<Rightarrow> bool \<Rightarrow> 'v StickyToggleButtonModel \<Rightarrow> error + 'v StickyToggleButtonModel"
  and sticky_toggle :: "bool \<Rightarrow> nat \<Rightarrow> 'v StickyToggleButtonModel \<Rightarrow> error + 'v StickyToggleButtonModel"
  and sticky_setValue :: "bool \<Rightarrow> nat \<Rightarrow> 'v \<Rightarrow> 'v StickyToggleButtonModel \<Rightarrow> error + 'v StickyToggleButtonModel"
where
  "sticky_setDown a 0 b s = Inl OutOfFuel"
| "sticky_setDown a (Suc n) b s =
     (if down s = b then Inr s else sticky_downListener a n b (s\<lparr>down := b\<rparr>))"
| "sticky_downListener a n d s =
     (case (if enabled s \<and> over s then
              (case (if d \<and> valueProperty s = valueUp s then
                       (case sticky_toggle a n s of
                          Inl e \<Rightarrow> Inl e
                        | Inr s' \<Rightarrow> Inr (s'\<lparr>pressedWhileDownProperty := False\<rparr>))
                     else Inr s) of
                 Inl e \<Rightarrow> Inl e
               | Inr s1 \<Rightarrow>
                   (if \<not> d \<and> valueProperty s1 = valueDown s1 then
                      (if pressedWhileDownProperty s1 then sticky_toggle a n s1
                       else Inr (s1\<lparr>pressedWhileDownProperty := True\<rparr>))
                    else Inr s1))
            else Inr s) of
        Inl e \<Rightarrow> Inl e
      | Inr s2 \<Rightarrow>
          (if \<not> d \<and> \<not> over s2 then Inr (s2\<lparr>pressedWhileDownProperty := True\<rparr>) else Inr s2))"
| "sticky_toggle a n s =
     (case js_assert a (valueProperty s = valueUp s \<or> valueProperty s = valueDown s)
             ''unrecognized value'' of
        Inl e \<Rightarrow> Inl e
      | Inr _ \<Rightarrow>
          sticky_setValue a n (if valueProperty s = valueUp s then valueDown s else valueUp s)
            (s\<lparr>toggledCount := toggledCount s + 1\<rparr>))"
| "sticky_setValue a 0 v s = Inl OutOfFuel"
| "sticky_setValue a (Suc n) v s =
     (if valueProperty s = v then Inr s
      else sticky_setDown a n (v = valueDown s) (s\<lparr>valueProperty := v\<rparr>))"

definition sticky_setOver :: "bool \<Rightarrow> 'v StickyToggleButtonModel \<Rightarrow> 'v StickyToggleButtonModel" where
  "sticky_setOver b s = (if over s = b then s else s\<lparr>over := b\<rparr>)"

text \<open>The listener linked to \<open>enabledProperty\<close>, and the setter that notifies it.\<close>

definition enabledPropertyOnListener :: "bool \<Rightarrow> 'v StickyToggleButtonModel \<Rightarrow> 'v StickyToggleButtonModel" where
  "enabledPropertyOnListener e s = (if e then s\<lparr>pressedWhileDownProperty := True\<rparr> else s)"

definition sticky_setEnabled :: "bool \<Rightarrow> 'v StickyToggleButtonModel \<Rightarrow> 'v StickyToggleButtonModel" where
  "sticky_setEnabled b s =
     (if enabled s = b then s else enabledPropertyOnListener b (s\<lparr>enabled := b\<rparr>))"

text \<open>
  The constructor: an idle base, the guard flag false, and then the three \<open>link\<close>
  calls in the order of the source, each running its listener with the current value.
\<close>

definition StickyToggleButtonModel_new ::
  "bool \<Rightarrow> nat \<Rightarrow> 'v \<Rightarrow> 'v \<Rightarrow> 'v \<Rightarrow> error + 'v StickyToggleButtonModel" where
  "StickyToggleButtonModel_new a n vUp vDown v =
     (let s0 = \<lparr>over = False, down = False, enabled = True,
                valueUp = vUp, valueDown = vDown, valueProperty = v,
                pressedWhileDownProperty = False, toggledCount = 0\<rparr>
      in case sticky_downListener a n (down s0) s0 of
           Inl e \<Rightarrow> Inl e
         | Inr s1 \<Rightarrow>
             (case sticky_setDown a n (valueProperty s1 = valueDown s1) s1 of
                Inl e \<Rightarrow> Inl e
              | Inr s2 \<Rightarrow> Inr (enabledPropertyOnListener (enabled s2) s2)))"

text \<open>A press and the release that follows it.\<close>

definition pressRelease ::
  "bool \<Rightarrow> nat \<Rightarrow> 'v StickyToggleButtonModel \<Rightarrow> error + 'v StickyToggleButtonModel" where
  "pressRelease a n s =
     (case sticky_setDown a n True s of
        Inl e \<Rightarrow> Inl e
      | Inr s1 \<Rightarrow> sticky_setDown a n False s1)"

text \<open>
  What can happen to a sticky toggle button model: the pointer enters or leaves, is
  pressed or released, the button is enabled or disabled, and the bound property is set
  from outside. A history is run operation by operation and stops at the first error.
\<close>

datatype 'v stickyOperation =
    StickySetOver bool | StickySetDown bool | StickySetEnabled bool | StickySetValue 'v

fun sticky_step ::
  "bool \<Rightarrow> nat \<Rightarrow> 'v StickyToggleButtonModel \<Rightarrow> 'v stickyOperation
     \<Rightarrow> error + 'v StickyToggleButtonModel" where
  "sticky_step a n s (StickySetOver b) = Inr (sticky_setOver b s)"
| "sticky_step a n s (StickySetDown b) = sticky_setDown a n b s"
| "sticky_step a n s (StickySetEnabled b) = Inr (sticky_setEnabled b s)"
| "sticky_step a n s (StickySetValue v) = sticky_setValue a n v s"

fun sticky_run ::
  "bool \<Rightarrow> nat \<Rightarrow> 'v StickyToggleButtonModel \<Rightarrow> 'v stickyOperation list
     \<Rightarrow> error + 'v StickyToggleButtonModel" where
  "sticky_run a n s [] = Inr s"
| "sticky_run a n s (x # xs) =
     (case sticky_step a n s x of
        Inl e \<Rightarrow> Inl e
      | Inr s' \<Rightarrow> sticky_run a n s' xs)"

text \<open>
  What may come between the press and the release of one gesture without enabling the
  button again: the pointer enters or leaves, and the button is disabled.
\<close>

fun withinGesture :: "'v stickyOperation \<Rightarrow> bool" where
  "withinGesture (StickySetOver b) = True"
| "withinGesture (StickySetEnabled b) = (\<not> b)"
| "withinGesture (StickySetDown b) = False"
| "withinGesture (StickySetValue v) = False"

text \<open>
  The guard flag is set whenever the button is up, enabled and at \<open>valueDown\<close>.
\<close>

definition guardInv :: "'v StickyToggleButtonModel \<Rightarrow> bool" where
  "guardInv s =
     (\<not> down s \<and> enabled s \<and> valueProperty s = valueDown s \<longrightarrow> pressedWhileDownProperty s)"

section \<open>ToggleButtonModel (experimental buttons)\<close>

text \<open>
  The model tracks the pointer that is down and the pointer that is over (\<open>null\<close> is
  \<open>None\<close>), whether the button is enabled, the interaction state (a string) and
  \<open>buttonStateUp\<close>, the two-valued property the button toggles. The base it inherits
  from (SUN/experimental/buttons/ButtonModel) is not among the sources; these are the
  fields of it that the \<open>down\<close> and \<open>up\<close> handlers read and write.
\<close>

record 'p ToggleButtonModel =
  toggleOnDown :: bool
  downPointer :: "'p option"
  overPointer :: "'p option"
  buttonEnabled :: bool
  interactionState :: string
  buttonStateUp :: bool

text \<open>The \<open>down\<close> handler, for an event of pointer \<open>p\<close>.\<close>

definition toggle_down :: "'p \<Rightarrow> 'p ToggleButtonModel \<Rightarrow> 'p ToggleButtonModel" where
  "toggle_down p s =
     (let s1 = (if downPointer s = None then s\<lparr>downPointer := Some p\<rparr> else s)
      in if buttonEnabled s1 \<and> Some p = downPointer s1 then
           (let s2 = s1\<lparr>interactionState := ''pressed''\<rparr>
            in if toggleOnDown s2 then s2\<lparr>buttonStateUp := \<not> buttonStateUp s2\<rparr> else s2)
         else s1)"

text \<open>The \<open>up\<close> handler, for an event of pointer \<open>p\<close>.\<close>

definition toggle_up :: "'p \<Rightarrow> 'p ToggleButtonModel \<Rightarrow> 'p ToggleButtonModel" where
  "toggle_up p s =
     (let s1 =
            (if buttonEnabled s then
               (let s2 = s\<lparr>interactionState :=
                            (if overPointer s = None then ''idle''
                             else if buttonStateUp s then ''pressed''
                             else ''over'')\<rparr>
                in if \<not> toggleOnDown s2 \<and> downPointer s2 = Some p \<and> overPointer s2 = Some p
                   then s2\<lparr>buttonStateUp := \<not> buttonStateUp s2\<rparr>
                   else s2)
             else s)
      in if Some p = downPointer s1 then s1\<lparr>downPointer := None\<rparr> else s1)"

section \<open>Appearance strategies of RectangularButton\<close>

text \<open>
  The argument of \<open>updateAppearance\<close> is whatever value the interaction state property
  holds: one of the five members of ButtonInteractionState that the \<open>switch\<close> names, or
  any other value, given here by the text that \<open>'unsupported interactionState: ' +
  interactionState\<close> appends.
\<close>

datatype interactionStateValue = Member ButtonInteractionState | Other string

text \<open>The paint properties of a scenery Path that the strategies assign.\<close>

record 'p Path =
  fill :: 'p
  stroke :: 'p

subsection \<open>ThreeDAppearanceStrategy\<close>

record 'p ThreeDPaints =
  upFillVertical :: 'p
  overFillVertical :: 'p
  downFillVertical :: 'p
  disabledFillVertical :: 'p
  disabledPressedFillVertical :: 'p
  upFillHorizontal :: 'p
  overFillHorizontal :: 'p
  disabledFillHorizontal :: 'p
  enabledStroke :: 'p
  disabledStroke :: 'p

record 'p ThreeDNodes =
  button :: "'p Path"
  overlayForHorizGradient :: "'p Path"

fun ThreeD_updateAppearance ::
  "'p ThreeDPaints \<Rightarrow> interactionStateValue \<Rightarrow> 'p ThreeDNodes \<Rightarrow> error + 'p ThreeDNodes" where
  "ThreeD_updateAppearance c (Member IDLE) n =
     Inr (n\<lparr>button := (button n)\<lparr>fill := upFillVertical c\<rparr>,
            overlayForHorizGradient :=
              (overlayForHorizGradient n)\<lparr>stroke := enabledStroke c, fill := upFillHorizontal c\<rparr>\<rparr>)"
| "ThreeD_updateAppearance c (Member OVER) n =
     Inr (n\<lparr>button := (button n)\<lparr>fill := overFillVertical c\<rparr>,
            overlayForHorizGradient :=
              (overlayForHorizGradient n)\<lparr>stroke := enabledStroke c, fill := overFillHorizontal c\<rparr>\<rparr>)"
| "ThreeD_updateAppearance c (Member PRESSED) n =
     Inr (n\<lparr>button := (button n)\<lparr>fill := downFillVertical c\<rparr>,
            overlayForHorizGradient :=
              (overlayForHorizGradient n)\<lparr>stroke := enabledStroke c, fill := overFillHorizontal c\<rparr>\<rparr>)"
| "ThreeD_updateAppearance c (Member DISABLED) n =
     Inr (n\<lparr>button := (button n)\<lparr>fill := disabledFillVertical c, stroke := disabledStroke c\<rparr>,
            overlayForHorizGradient :=
              (overlayForHorizGradient n)\<lparr>stroke := disabledStroke c, fill := disabledFillHorizontal c\<rparr>\<rparr>)"
| "ThreeD_updateAppearance c (Member DISABLED_PRESSED) n =
     Inr (n\<lparr>button := (button n)\<lparr>fill := disabledPressedFillVertical c, stroke := disabledStroke c\<rparr>,
            overlayForHorizGradient :=
              (overlayForHorizGradient n)\<lparr>stroke := disabledStroke c, fill := disabledFillHorizontal c\<rparr>\<rparr>)"
| "ThreeD_updateAppearance c (Other v) n = Inl (Error (''unsupported interactionState: '' @ v))"

subsection \<open>FlatAppearanceStrategy\<close>

text \<open>
  The flat strategy's own \<open>disabledPressedFillVertical\<close>, \<open>enabledStroke\<close> and
  \<open>disabledStroke\<close> carry the prefix \<open>flat_\<close> here.
\<close>

record 'p FlatPaints =
  upFill :: 'p
  overFill :: 'p
  downFill :: 'p
  disabledFill :: 'p
  flat_disabledPressedFillVertical :: 'p
  flat_enabledStroke :: 'p
  flat_disabledStroke :: 'p

fun Flat_updateAppearance ::
  "'p FlatPaints \<Rightarrow> interactionStateValue \<Rightarrow> 'p Path \<Rightarrow> error + 'p Path" where
  "Flat_updateAppearance c (Member IDLE) b = Inr (b\<lparr>fill := upFill c, stroke := flat_enabledStroke c\<rparr>)"
| "Flat_updateAppearance c (Member OVER) b = Inr (b\<lparr>fill := overFill c, stroke := flat_enabledStroke c\<rparr>)"
| "Flat_updateAppearance c (Member PRESSED) b = Inr (b\<lparr>fill := downFill c, stroke := flat_enabledStroke c\<rparr>)"
| "Flat_updateAppearance c (Member DISABLED) b =
     Inr (b\<lparr>fill := disabledFill c, stroke := flat_disabledStroke c\<rparr>)"
| "Flat_updateAppearance c (Member DISABLED_PRESSED) b =
     Inr (b\<lparr>fill := flat_disabledPressedFillVertical c, stroke := flat_disabledStroke c\<rparr>)"
| "Flat_updateAppearance c (Other v) b = Inl (Error (''unsupported interactionState: '' @ v))"

section \<open>Validation of options in the constructors\<close>

text \<open>
  Numbers are reals. The options objects of the widgets share the property names
  \<open>xMargin\<close> and \<open>yMargin\<close>.
\<close>

record MarginOptions =
  xMargin :: real
  yMargin :: real

subsection \<open>Options and constants of RectangularButton\<close>

definition HORIZONTAL_HIGHLIGHT_GRADIENT_LENGTH :: real where
  "HORIZONTAL_HIGHLIGHT_GRADIENT_LENGTH = 7"

definition VERTICAL_HIGHLIGHT_GRADIENT_LENGTH :: real where
  "VERTICAL_HIGHLIGHT_GRADIENT_LENGTH = 7"

definition SHADE_GRADIENT_LENGTH :: real where
  "SHADE_GRADIENT_LENGTH = 3"

definition X_ALIGN_VALUES :: "string list" where
  "X_ALIGN_VALUES = [''center'', ''left'', ''right'']"

definition Y_ALIGN_VALUES :: "string list" where
  "Y_ALIGN_VALUES = [''center'', ''top'', ''bottom'']"

datatype appearanceStrategy = ThreeDAppearanceStrategy | FlatAppearanceStrategy

text \<open>
  The options that the constructor's checks and size computation read: the content is
  absent or has a width and a height; \<open>cornerRadius\<close> is \<open>None\<close> when it is not a
  number.
\<close>

record RectangularButtonOptions = MarginOptions +
  content :: "(real \<times> real) option"
  minWidth :: real
  minHeight :: real
  xAlign :: string
  yAlign :: string
  cornerRadius :: "real option"
  buttonAppearanceStrategy :: appearanceStrategy

text \<open>The defaults of the constructor's \<open>merge\<close>.\<close>

definition RectangularButton_defaults :: RectangularButtonOptions where
  "RectangularButton_defaults =
     \<lparr>xMargin = 8, yMargin = 5, content = None,
      minWidth = HORIZONTAL_HIGHLIGHT_GRADIENT_LENGTH + SHADE_GRADIENT_LENGTH,
      minHeight = VERTICAL_HIGHLIGHT_GRADIENT_LENGTH + SHADE_GRADIENT_LENGTH,
      xAlign = ''center'', yAlign = ''center'', cornerRadius = Some 4,
      buttonAppearanceStrategy = ThreeDAppearanceStrategy\<rparr>"

text \<open>The assertions with which a strategy's constructor begins.\<close>

definition strategy_checks :: "bool \<Rightarrow> appearanceStrategy \<Rightarrow> real \<Rightarrow> real \<Rightarrow> error + unit" where
  "strategy_checks assertions strategy buttonWidth buttonHeight =
     (case strategy of
        ThreeDAppearanceStrategy \<Rightarrow>
          (case js_assert assertions
                  (buttonWidth \<ge> HORIZONTAL_HIGHLIGHT_GRADIENT_LENGTH + SHADE_GRADIENT_LENGTH) [] of
             Inl e \<Rightarrow> Inl e
           | Inr _ \<Rightarrow>
               js_assert assertions
                 (buttonHeight \<ge> VERTICAL_HIGHLIGHT_GRADIENT_LENGTH + SHADE_GRADIENT_LENGTH) [])
      | FlatAppearanceStrategy \<Rightarrow> Inr ())"

subsection \<open>ButtonNode\<close>

text \<open>
  What the constructor of ButtonNode reads of its arguments: whether the options give
  an \<open>enabledProperty\<close> and whether it is the button model's; what
  \<open>buttonBackground.fill\<close> is (\<open>null\<close>, \<open>undefined\<close> when the object has no such
  property, or a paint) and the size of the background; and the appearance strategy of
  the options, \<open>None\<close> for the default \<open>null\<close>.
\<close>

datatype enabledPropertyOption = NotProvided | ModelsEnabledProperty | OtherEnabledProperty

datatype fillValue = FillNull | FillUndefined | FillPaint

record ButtonBackground =
  backgroundFill :: fillValue
  backgroundWidth :: real
  backgroundHeight :: real

text \<open>
  The constructor of ButtonNode: the assertion on \<open>options.enabledProperty\<close>, the
  assertion that the background has no fill yet, and the construction of the appearance
  strategy with the background, whose constructor begins with its own assertions. With
  the default strategy \<open>null\<close>, \<open>new\<close> throws a TypeError.
\<close>

definition ButtonNode_new ::
  "bool \<Rightarrow> enabledPropertyOption \<Rightarrow> ButtonBackground \<Rightarrow> appearanceStrategy option
     \<Rightarrow> error + unit" where
  "ButtonNode_new assertions enabledOption background strategy =
     (case js_assert assertions (enabledOption \<noteq> OtherEnabledProperty)
             ''if options.enabledProperty is provided, it must === buttonModel.enabledProperty'' of
        Inl e \<Rightarrow> Inl e
      | Inr _ \<Rightarrow>
     (case js_assert assertions (backgroundFill background = FillNull)
             ''ButtonNode controls the fill for the buttonBackground'' of
        Inl e \<Rightarrow> Inl e
      | Inr _ \<Rightarrow>
          (case strategy of
             None \<Rightarrow> Inl (Error ''TypeError'')
           | Some st \<Rightarrow>
               strategy_checks assertions st (backgroundWidth background)
                 (backgroundHeight background))))"

subsection \<open>The constructor of RectangularButton\<close>

text \<open>
  The constructor: the two assertions on the alignments; the call of the base
  constructor; the size of the button; the assertion of \<open>createButtonShape\<close>; and the
  assertions of the appearance strategy, which reads the size from the Path just built
  (the size computed). It returns the width and height of the button built.

  The base constructor is called as \<open>super( buttonModel, interactionStateProperty,
  options )\<close>, while the ButtonNode of the sources takes \<open>( buttonModel,
  buttonBackground, interactionStateProperty, options )\<close>. The arguments are bound by
  position: the base constructor's background is the interaction state property, which
  has no \<open>fill\<close> (and whose size is never read), and its own options are undefined, so
  no \<open>enabledProperty\<close> is provided and the strategy is the default \<open>null\<close>.
\<close>

definition RectangularButton_new :: "bool \<Rightarrow> RectangularButtonOptions \<Rightarrow> error + real \<times> real" where
  "RectangularButton_new assertions opts =
     (case js_assert assertions (xAlign opts \<in> set X_ALIGN_VALUES)
             (''invalid xAlign: '' @ xAlign opts) of
        Inl e \<Rightarrow> Inl e
      | Inr _ \<Rightarrow>
     (case js_assert assertions (yAlign opts \<in> set Y_ALIGN_VALUES)
             (''invalid yAlign: '' @ yAlign opts) of
        Inl e \<Rightarrow> Inl e
      | Inr _ \<Rightarrow>
     (case ButtonNode_new assertions NotProvided
             \<lparr>backgroundFill = FillUndefined, backgroundWidth = 0, backgroundHeight = 0\<rparr>
             None of
        Inl e \<Rightarrow> Inl e
      | Inr _ \<Rightarrow>
          (let buttonWidth =
                 max (case content opts of Some (w, h) \<Rightarrow> w + xMargin opts * 2 | None \<Rightarrow> 0)
                     (minWidth opts);
               buttonHeight =
                 max (case content opts of Some (w, h) \<Rightarrow> h + yMargin opts * 2 | None \<Rightarrow> 0)
                     (minHeight opts)
           in case js_assert assertions (cornerRadius opts \<noteq> None) ''cornerRadius is required'' of
                Inl e \<Rightarrow> Inl e
              | Inr _ \<Rightarrow>
                  (case strategy_checks assertions (buttonAppearanceStrategy opts)
                          buttonWidth buttonHeight of
                     Inl e \<Rightarrow> Inl e
                   | Inr _ \<Rightarrow> Inr (buttonWidth, buttonHeight))))))"

subsection \<open>Slider\<close>

text \<open>\<open>rotation\<close> is \<open>None\<close> when the options leave it undefined.\<close>

record SliderOptions =
  orientation :: string
  rotation :: "real option"

definition VERTICAL_ROTATION :: real where
  "VERTICAL_ROTATION = - pi / 2"

text \<open>
  The constructor up to the call of the base constructor: the two assertions, and the
  rotation that a vertical slider gets. It returns the options as they are then.
\<close>

definition Slider_new :: "bool \<Rightarrow> SliderOptions \<Rightarrow> error + SliderOptions" where
  "Slider_new assertions opts =
     (case js_assert assertions (orientation opts = ''horizontal'' \<or> orientation opts = ''vertical'')
             (''invalid orientation: '' @ orientation opts) of
        Inl e \<Rightarrow> Inl e
      | Inr _ \<Rightarrow>
          (case js_assert assertions (rotation opts = None)
                  ''Slider specifies rotation based on orientation'' of
             Inl e \<Rightarrow> Inl e
           | Inr _ \<Rightarrow>
               Inr (if orientation opts = ''vertical''
                    then opts\<lparr>rotation := Some VERTICAL_ROTATION\<rparr> else opts)))"

subsection \<open>ComboBox\<close>

definition LIST_POSITION_VALUES :: "string list" where
  "LIST_POSITION_VALUES = [''above'', ''below'']"

definition ALIGN_VALUES :: "string list" where
  "ALIGN_VALUES = [''left'', ''right'', ''center'']"

record ComboBoxOptions = MarginOptions +
  align :: string
  listPosition :: string
  disabledOpacity :: real

text \<open>
  The constructor up to the call of the base constructor: the assertion on the list's
  parent (whose \<open>maxWidth\<close> is \<open>None\<close> for \<open>null\<close>) and the four on the options.
\<close>

definition ComboBox_new :: "bool \<Rightarrow> real option \<Rightarrow> ComboBoxOptions \<Rightarrow> error + unit" where
  "ComboBox_new assertions listParent_maxWidth opts =
     (case js_assert assertions (listParent_maxWidth = None)
             ''ComboBox is responsible for scaling listBox. Setting maxWidth for listParent may result in buggy behavior.'' of
        Inl e \<Rightarrow> Inl e
      | Inr _ \<Rightarrow>
     (case js_assert assertions (xMargin opts > 0 \<and> yMargin opts > 0) ''margins must be > 0'' of
        Inl e \<Rightarrow> Inl e
      | Inr _ \<Rightarrow>
     (case js_assert assertions (disabledOpacity opts > 0 \<and> disabledOpacity opts < 1)
             ''invalid disabledOpacity'' of
        Inl e \<Rightarrow> Inl e
      | Inr _ \<Rightarrow>
     (case js_assert assertions (listPosition opts \<in> set LIST_POSITION_VALUES)
             (''invalid listPosition: '' @ listPosition opts) of
        Inl e \<Rightarrow> Inl e
      | Inr _ \<Rightarrow>
          js_assert assertions (align opts \<in> set ALIGN_VALUES)
            (''invalid align: '' @ align opts)))))"

subsection \<open>Panel\<close>

text \<open>
  Panel's own \<open>ALIGN_VALUES\<close>, \<open>align\<close> and \<open>minWidth\<close> carry the prefix \<open>panel_\<close>
  here. The content has a width and a height and is included in the layout or not.
\<close>

definition panel_ALIGN_VALUES :: "string list" where
  "panel_ALIGN_VALUES = [''left'', ''center'', ''right'']"

record PanelOptions = MarginOptions +
  panel_align :: string
  panel_minWidth :: real

text \<open>The defaults of \<open>DEFAULT_OPTIONS\<close>.\<close>

definition Panel_defaults :: PanelOptions where
  "Panel_defaults = \<lparr>xMargin = 5, yMargin = 5, panel_align = ''left'', panel_minWidth = 0\<rparr>"

text \<open>
  \<open>updateBackground\<close>: with no valid content the background is left out; otherwise it
  is sized to the content and the margins. The result is the width and height given to
  the background's rectangle.
\<close>

definition updateBackground :: "PanelOptions \<Rightarrow> real \<times> real \<times> bool \<Rightarrow> (real \<times> real) option" where
  "updateBackground opts c =
     (case c of (width, height, hasValidContent) \<Rightarrow>
        if \<not> hasValidContent then None
        else (let backgroundWidth = max (panel_minWidth opts) (width + 2 * xMargin opts)
              in Some (backgroundWidth, height + 2 * yMargin opts)))"

text \<open>
  The constructor: its one assertion, on the alignment, and the first
  \<open>updateBackground\<close>, whose result it returns.
\<close>

definition Panel_new ::
  "bool \<Rightarrow> PanelOptions \<Rightarrow> real \<times> real \<times> bool \<Rightarrow> error + (real \<times> real) option" where
  "Panel_new assertions opts c =
     (case js_assert assertions (panel_align opts \<in> set panel_ALIGN_VALUES)
             (''invalid align: '' @ panel_align opts) of
        Inl e \<Rightarrow> Inl e
      | Inr _ \<Rightarrow> Inr (updateBackground opts c))"

section \<open>Push button: listeners and fire\<close>

lemma indexOf_lower: "- 1 \<le> indexOf xs x"
  by (induction xs) (auto simp: Let_def)

lemma indexOf_absent: "indexOf xs x = -1 \<longleftrightarrow> x \<notin> set xs"
proof (induction xs)
  case Nil
  then show ?case by simp
next
  case (Cons y ys)
  have "- 1 \<le> indexOf ys x" by (rule indexOf_lower)
  with Cons show ?case by (auto simp: Let_def)
qed

lemma distinct_splice1: "distinct xs \<Longrightarrow> distinct (splice1 xs i)"
  unfolding splice1_def
  by (metis append_take_drop_id distinct_append distinct_drop distinct_take drop_drop plus_1_eq_Suc set_drop_subset subsetD disjoint_iff)


lemma perform_fields:
  "down (perform a s) = down s" "options (perform a s) = options s"
  "fireCount (perform a s) = fireCount s" "timerFireCount (perform a s) = timerFireCount s"
  "calls (perform a s) = calls s"
  by (cases a; simp add: addListener_def removeListener_def setOver_def setEnabled_def
        enabledListener_def Let_def split: option.splits)+

lemma perform_timer:
  "timer (perform a s) = timer s
   \<or> timer (perform a s) = map_option (\<lambda>t. t\<lparr>running := False\<rparr>) (timer s)"
  by (cases a)
     (auto simp: addListener_def removeListener_def setOver_def setEnabled_def
        enabledListener_def timer_stop_def Let_def split: option.splits)

lemma perform_distinct: "distinct (listeners s) \<Longrightarrow> distinct (listeners (perform a s))"
  by (cases a)
     (auto simp: addListener_def removeListener_def setOver_def setEnabled_def
        enabledListener_def Let_def indexOf_absent distinct_splice1 split: option.splits)

lemma foldl_perform_fields:
  "down (foldl (\<lambda>s' a. perform a s') s as) = down s"
  "options (foldl (\<lambda>s' a. perform a s') s as) = options s"
  "fireCount (foldl (\<lambda>s' a. perform a s') s as) = fireCount s"
  "timerFireCount (foldl (\<lambda>s' a. perform a s') s as) = timerFireCount s"
  "calls (foldl (\<lambda>s' a. perform a s') s as) = calls s"
  by (induction as arbitrary: s; simp add: perform_fields)+

lemma foldl_perform_timer:
  "timer (foldl (\<lambda>s' a. perform a s') s as) = timer s
   \<or> timer (foldl (\<lambda>s' a. perform a s') s as) = map_option (\<lambda>t. t\<lparr>running := False\<rparr>) (timer s)"
proof (induction as arbitrary: s)
  case Nil
  then show ?case by simp
next
  case (Cons a as)
  from Cons [of "perform a s"] perform_timer [of a s] show ?case
    by (cases "timer s") auto
qed

lemma foldl_perform_distinct:
  "distinct (listeners s) \<Longrightarrow> distinct (listeners (foldl (\<lambda>s' a. perform a s') s as))"
  by (induction as arbitrary: s) (auto simp: perform_distinct)

lemma callListener_fields:
  "down (callListener beh s l) = down s" "options (callListener beh s l) = options s"
  "fireCount (callListener beh s l) = fireCount s"
  "timerFireCount (callListener beh s l) = timerFireCount s"
  "calls (callListener beh s l) = calls s @ [l]"
  by (simp_all add: callListener_def foldl_perform_fields)

lemma callListener_timer:
  "timer (callListener beh s l) = timer s
   \<or> timer (callListener beh s l) = map_option (\<lambda>t. t\<lparr>running := False\<rparr>) (timer s)"
  using foldl_perform_timer [of "s\<lparr>calls := calls s @ [l]\<rparr>" "beh l"]
  by (simp add: callListener_def)

lemma callListener_distinct:
  "distinct (listeners s) \<Longrightarrow> distinct (listeners (callListener beh s l))"
  by (simp add: callListener_def foldl_perform_distinct)

lemma foldl_callListener_fields:
  "down (foldl (callListener beh) s xs) = down s"
  "options (foldl (callListener beh) s xs) = options s"
  "fireCount (foldl (callListener beh) s xs) = fireCount s"
  "timerFireCount (foldl (callListener beh) s xs) = timerFireCount s"
  "calls (foldl (callListener beh) s xs) = calls s @ xs"
  by (induction xs arbitrary: s; simp add: callListener_fields)+

lemma foldl_callListener_timer:
  "timer (foldl (callListener beh) s xs) = timer s
   \<or> timer (foldl (callListener beh) s xs) = map_option (\<lambda>t. t\<lparr>running := False\<rparr>) (timer s)"
proof (induction xs arbitrary: s)
  case Nil
  then show ?case by simp
next
  case (Cons x xs)
  from Cons [of "callListener beh s x"] callListener_timer [of beh s x] show ?case
    by (cases "timer s") auto
qed

lemma foldl_callListener_distinct:
  "distinct (listeners s) \<Longrightarrow> distinct (listeners (foldl (callListener beh) s xs))"
  by (induction xs arbitrary: s) (auto simp: callListener_distinct)

lemma fire_fields:
  "down (fire beh s) = down s" "options (fire beh s) = options s"
  "fireCount (fire beh s) = fireCount s + 1" "timerFireCount (fire beh s) = timerFireCount s"
  "calls (fire beh s) = calls s @ listeners s"
  by (simp_all add: fire_def foldl_callListener_fields)

lemma fire_timer:
  "timer (fire beh s) = timer s
   \<or> timer (fire beh s) = map_option (\<lambda>t. t\<lparr>running := False\<rparr>) (timer s)"
  using foldl_callListener_timer [of beh "s\<lparr>fireCount := fireCount s + 1\<rparr>" "listeners s"]
  by (simp add: fire_def)

lemma fire_timer_None: "timer s = None \<Longrightarrow> timer (fire beh s) = None"
  using fire_timer [of beh s] by auto

lemma fire_timer_Some: "timer s \<noteq> None \<Longrightarrow> timer (fire beh s) \<noteq> None"
  using fire_timer [of beh s] by auto

lemma fire_timer_stopped:
  "timer s = Some t \<Longrightarrow> \<not> running t \<Longrightarrow> timer (fire beh s) = Some t"
  using fire_timer [of beh s] by auto

lemma fire_distinct: "distinct (listeners s) \<Longrightarrow> distinct (listeners (fire beh s))"
  by (simp add: fire_def foldl_callListener_distinct)

lemma timerCallback_fields:
  "down (timerCallback beh s) = down s" "options (timerCallback beh s) = options s"
  "fireCount (timerCallback beh s) = fireCount s + 1"
  "timerFireCount (timerCallback beh s) = timerFireCount s + 1"
  by (simp_all add: timerCallback_def fire_fields)

lemma timerCallback_timer_Some: "timer s \<noteq> None \<Longrightarrow> timer (timerCallback beh s) \<noteq> None"
  by (simp add: timerCallback_def fire_timer_Some)

lemma timerCallback_distinct: "distinct (listeners s) \<Longrightarrow> distinct (listeners (timerCallback beh s))"
  by (simp add: timerCallback_def fire_distinct)

lemma downListener_distinct:
  "distinct (listeners s) \<Longrightarrow> distinct (listeners (downListener beh d s))"
  by (auto simp: downListener_def Let_def fire_distinct timerCallback_distinct
        split: option.splits prod.splits)

lemma step_distinct: "distinct (listeners s) \<Longrightarrow> distinct (listeners (step beh s e))"
proof (cases e)
  case (SetDown b)
  assume "distinct (listeners s)"
  then show ?thesis using SetDown downListener_distinct [of "s\<lparr>down := b\<rparr>" beh b]
    by (simp add: setDown_def)
next
  case TimerTick
  assume "distinct (listeners s)"
  then show ?thesis using TimerTick
    by (auto simp: timerTick_def Let_def timerCallback_distinct split: option.splits prod.splits)
next
  case (AddL l)
  assume "distinct (listeners s)"
  then show ?thesis using AddL perform_distinct [of s "AddListener l"] by simp
next
  case (RemoveL l)
  assume "distinct (listeners s)"
  then show ?thesis using RemoveL perform_distinct [of s "RemoveListener l"] by simp
next
  case Fire
  assume "distinct (listeners s)"
  then show ?thesis using Fire by (simp add: fire_distinct)
qed (auto simp: setOver_def setEnabled_def enabledListener_def split: option.splits)

lemma run_distinct: "distinct (listeners s) \<Longrightarrow> distinct (listeners (run beh s es))"
  unfolding run_def by (induction es arbitrary: s) (auto simp: step_distinct)

lemma new_distinct: "distinct (listeners (PushButtonModel_new beh opts))"
  by (simp add: PushButtonModel_new_def downListener_def enabledListener_def Let_def
        timer_stop_def timer_new_def split: option.splits)

text \<open>
  C9. \<open>addListener\<close> of a listener that is already registered leaves the model as it
  is, and so does \<open>removeListener\<close> of a listener that is not registered. Hence
  \<open>addListener\<close> is idempotent, and a listener list without duplicates stays without
  duplicates under \<open>addListener\<close>.
\<close>

theorem listener_registration_noop:
  "(l \<in> set (listeners s) \<longrightarrow> addListener l s = s) \<and>
   (l \<notin> set (listeners s) \<longrightarrow> removeListener l s = s) \<and>
   addListener l (addListener l s) = addListener l s \<and>
   (distinct (listeners s) \<longrightarrow> distinct (listeners (addListener l s)))"
  by (auto simp: addListener_def removeListener_def indexOf_absent Let_def)

theorem listener_registration_noop_witness:
  "(let s = PushButtonModel_new (\<lambda>_. [])
              \<lparr>fireOnDown = False, listener = Some (1::nat), fireOnHold = False,
               fireOnHoldDelay = 400, fireOnHoldInterval = 100\<rparr>
    in listeners s = [1] \<and> addListener 1 s = s \<and> removeListener 2 s = s
       \<and> listeners (addListener 2 s) = [1, 2]
       \<and> addListener 2 (addListener 2 s) = addListener 2 s)"
  using listener_registration_noop [of 1 "PushButtonModel_new (\<lambda>_. [])
              \<lparr>fireOnDown = False, listener = Some (1::nat), fireOnHold = False,
               fireOnHoldDelay = 400, fireOnHoldInterval = 100\<rparr>"]
    listener_registration_noop [of 2 "PushButtonModel_new (\<lambda>_. [])
              \<lparr>fireOnDown = False, listener = Some (1::nat), fireOnHold = False,
               fireOnHoldDelay = 400, fireOnHoldInterval = 100\<rparr>"]
  by (simp add: Let_def PushButtonModel_new_def downListener_def enabledListener_def addListener_def)

lemma count_list_distinct:
  "distinct xs \<Longrightarrow> count_list xs x = (if x \<in> set xs then 1 else 0)"
  by (induction xs) auto

text \<open>
  C10. In every state \<open>s\<close> that a push button model reaches from its constructor,
  the listeners that \<open>fire\<close> calls are exactly the listeners registered in \<open>s\<close>, in
  registration order, whatever the listeners add or remove while they are called; the
  list has no duplicates, so \<open>fire\<close> calls each registered listener once and no other
  listener.
\<close>

theorem fire_calls_snapshot:
  "(let s = run beh (PushButtonModel_new beh opts) ops
    in calls (fire beh s) = calls s @ listeners s
     \<and> distinct (listeners s)
     \<and> count_list (drop (length (calls s)) (calls (fire beh s))) l
         = (if l \<in> set (listeners s) then 1 else 0))"
  by (simp add: fire_fields run_distinct new_distinct count_list_distinct)

theorem fire_calls_snapshot_witness:
  "(let beh = (\<lambda>l::nat. if l = 1 then [RemoveListener 2, AddListener 3] else []);
        s = run beh (PushButtonModel_new beh
              \<lparr>fireOnDown = False, listener = Some 1, fireOnHold = False,
               fireOnHoldDelay = 400, fireOnHoldInterval = 100\<rparr>) [AddL 2]
    in listeners s = [1, 2] \<and> calls (fire beh s) = [1, 2] \<and> listeners (fire beh s) = [1, 3])"
  using fire_calls_snapshot [of "\<lambda>l::nat. if l = 1 then [RemoveListener 2, AddListener 3] else []"
      "\<lparr>fireOnDown = False, listener = Some 1, fireOnHold = False,
               fireOnHoldDelay = 400, fireOnHoldInterval = 100\<rparr>" "[AddL 2]" 1]
  by (simp add: Let_def run_def PushButtonModel_new_def downListener_def enabledListener_def
        addListener_def removeListener_def fire_def callListener_def splice1_def)

section \<open>Push button: when it fires\<close>

lemma downListener_options: "options (downListener beh d s) = options s"
  by (auto simp: downListener_def Let_def fire_fields timerCallback_fields
        split: option.splits prod.splits)

lemma step_options: "options (step beh s e) = options s"
proof (cases e)
  case (SetDown b)
  then show ?thesis by (simp add: setDown_def downListener_options)
next
  case TimerTick
  then show ?thesis
    by (auto simp: timerTick_def Let_def timerCallback_fields split: option.splits prod.splits)
qed (auto simp: setOver_def setEnabled_def enabledListener_def addListener_def
       removeListener_def Let_def fire_fields split: option.splits)

lemma run_options: "options (run beh s es) = options s"
  unfolding run_def by (induction es arbitrary: s) (auto simp: step_options)

lemma enabledListener_options: "options (enabledListener e s) = options s"
  by (simp add: enabledListener_def split: option.splits)

lemma new_options: "options (PushButtonModel_new beh opts) = opts"
  by (simp add: PushButtonModel_new_def Let_def enabledListener_options downListener_options)

lemma step_timer_None: "timer s = None \<Longrightarrow> timer (step beh s e) = None"
proof (cases e)
  case (SetDown b)
  assume "timer s = None"
  then show ?thesis using SetDown
    by (cases b) (auto simp: setDown_def downListener_def Let_def fire_timer_None)
next
  case Fire
  assume "timer s = None"
  then show ?thesis using Fire by (simp add: fire_timer_None)
qed (auto simp: setOver_def setEnabled_def enabledListener_def addListener_def
       removeListener_def timerTick_def Let_def)

lemma run_timer_None: "timer s = None \<Longrightarrow> timer (run beh s es) = None"
  unfolding run_def by (induction es arbitrary: s) (auto simp: step_timer_None)

lemma new_timer_None: "\<not> fireOnHold opts \<Longrightarrow> timer (PushButtonModel_new beh opts) = None"
  by (simp add: PushButtonModel_new_def downListener_def enabledListener_def Let_def)

lemma step_fireCount_no_timer:
  assumes "timer s = None" "e \<noteq> Fire"
  shows "fireCount (step beh s e) = fireCount s +
           (if fireOnDown (options s)
            then (if e = SetDown True \<and> \<not> down s \<and> enabled s then 1 else 0)
            else (if e = SetDown False \<and> down s \<and> over s \<and> enabled s then 1 else 0))"
proof (cases e)
  case (SetDown b)
  then show ?thesis using assms(1)
    by (cases b)
       (auto simp: setDown_def downListener_def Let_def fire_fields fire_timer_None)
qed (use assms in \<open>auto simp: setOver_def setEnabled_def enabledListener_def addListener_def
       removeListener_def timerTick_def Let_def\<close>)

text \<open>
  C2. For a push button model constructed without fireOnHold, in every state \<open>s\<close> it
  reaches, an operation other than a call of \<open>fire()\<close> by the client invokes \<open>fire\<close>
  once or not at all: with fireOnDown, once exactly when the operation sets \<open>down\<close> to
  true on a button that is up and enabled; without fireOnDown, once exactly when it sets
  \<open>down\<close> to false on a button that is down, over and enabled.
\<close>

theorem fire_without_hold:
  assumes "\<not> fireOnHold opts" and "e \<noteq> Fire"
    and "s = run beh (PushButtonModel_new beh opts) ops"
  shows "fireCount (step beh s e) = fireCount s +
           (if fireOnDown opts
            then (if e = SetDown True \<and> \<not> down s \<and> enabled s then 1 else 0)
            else (if e = SetDown False \<and> down s \<and> over s \<and> enabled s then 1 else 0))"
proof -
  have "timer s = None"
    using assms(1,3) by (simp add: run_timer_None new_timer_None)
  moreover have "options s = opts"
    using assms(3) by (simp add: run_options new_options)
  ultimately show ?thesis
    using step_fireCount_no_timer [of s e beh] assms(2) by simp
qed

theorem fire_without_hold_witness:
  "(let beh = (\<lambda>l::nat. []);
        up = \<lparr>fireOnDown = False, listener = Some 1, fireOnHold = False,
               fireOnHoldDelay = 400, fireOnHoldInterval = 100\<rparr>;
        dn = \<lparr>fireOnDown = True, listener = Some 1, fireOnHold = False,
               fireOnHoldDelay = 400, fireOnHoldInterval = 100\<rparr>
    in fireCount (run beh (PushButtonModel_new beh up) [SetOver True, SetDown True]) = 0
     \<and> fireCount (step beh (run beh (PushButtonModel_new beh up) [SetOver True, SetDown True])
                   (SetDown False)) = 1
     \<and> fireCount (step beh (run beh (PushButtonModel_new beh up) [SetDown True])
                   (SetDown False)) = 0
     \<and> fireCount (step beh (run beh (PushButtonModel_new beh dn) []) (SetDown True)) = 1
     \<and> fireCount (step beh (run beh (PushButtonModel_new beh dn) [SetEnabled False])
                   (SetDown True)) = 0)"
  using fire_without_hold [of "\<lparr>fireOnDown = False, listener = Some 1, fireOnHold = False,
               fireOnHoldDelay = 400, fireOnHoldInterval = 100\<rparr>" "SetDown False" _ "\<lambda>l::nat. []"
               "[SetOver True, SetDown True]", OF _ _ refl]
  by (simp add: Let_def run_def PushButtonModel_new_def downListener_def enabledListener_def
        setOver_def setDown_def setEnabled_def fire_def callListener_def)

section \<open>Push button: the hold timer\<close>

lemma downListener_timer_Some:
  assumes "timer s \<noteq> None"
  shows "timer (downListener beh d s) \<noteq> None"
proof (cases d)
  case True
  from assms have "timer (fire beh s) \<noteq> None" by (rule fire_timer_Some)
  then obtain u where "timer (fire beh s) = Some u" by blast
  with True assms show ?thesis by (auto simp: downListener_def Let_def)
next
  case False
  from assms obtain t where t: "timer s = Some t" by blast
  obtain t' cb where st: "timer_stop (\<not> fireOnDown (options s) \<and> over s \<and> enabled s) t = (t', cb)"
    by (cases "timer_stop (\<not> fireOnDown (options s) \<and> over s \<and> enabled s) t") blast
  have "timer (timerCallback beh (s\<lparr>timer := Some t'\<rparr>)) \<noteq> None"
    by (rule timerCallback_timer_Some) simp
  with False t st show ?thesis by (simp add: downListener_def Let_def)
qed

lemma step_timer_Some: "timer s \<noteq> None \<Longrightarrow> timer (step beh s e) \<noteq> None"
proof (cases e)
  case (SetDown b)
  assume "timer s \<noteq> None"
  then show ?thesis using SetDown downListener_timer_Some [of "s\<lparr>down := b\<rparr>" beh b]
    by (simp add: setDown_def)
next
  case TimerTick
  assume "timer s \<noteq> None"
  then obtain t where t: "timer s = Some t" by blast
  obtain t' cb where tk: "timer_tick t = (t', cb)" by (cases "timer_tick t") blast
  have "timer (timerCallback beh (s\<lparr>timer := Some t'\<rparr>)) \<noteq> None"
    by (rule timerCallback_timer_Some) simp
  with TimerTick t tk show ?thesis by (simp add: timerTick_def Let_def)
next
  case Fire
  assume "timer s \<noteq> None"
  then show ?thesis using Fire by (simp add: fire_timer_Some)
qed (auto simp: setOver_def setEnabled_def enabledListener_def addListener_def
       removeListener_def Let_def)

lemma run_timer_Some: "timer s \<noteq> None \<Longrightarrow> timer (run beh s es) \<noteq> None"
  unfolding run_def
proof (induction es arbitrary: s)
  case Nil
  then show ?case by simp
next
  case (Cons e es)
  from Cons.prems have "timer (step beh s e) \<noteq> None" by (rule step_timer_Some)
  from Cons.IH [OF this] show ?case by simp
qed

lemma new_timer_Some: "fireOnHold opts \<Longrightarrow> timer (PushButtonModel_new beh opts) \<noteq> None"
  by (simp add: PushButtonModel_new_def downListener_def enabledListener_def Let_def
        timer_stop_def timer_new_def)

lemma disable_stops:
  assumes "timer s \<noteq> None" "enabled s"
  shows "timerStopped (setEnabled False s)" "fireCount (setEnabled False s) = fireCount s"
    "timerFireCount (setEnabled False s) = timerFireCount s"
proof -
  from assms(1) obtain t where t: "timer s = Some t" by blast
  show "timerStopped (setEnabled False s)"
    using t assms(2) by (simp add: setEnabled_def enabledListener_def timerStopped_def timer_stop_def)
  show "fireCount (setEnabled False s) = fireCount s"
    using t assms(2) by (simp add: setEnabled_def enabledListener_def)
  show "timerFireCount (setEnabled False s) = timerFireCount s"
    using t assms(2) by (simp add: setEnabled_def enabledListener_def)
qed

lemma step_stopped_timer:
  assumes t: "timer s = Some t" "\<not> running t"
    and np: "\<not> (e = SetDown True \<and> \<not> down s \<and> enabled s)"
  shows "timer (step beh s e) = Some t \<and> timerFireCount (step beh s e) = timerFireCount s
       \<and> fireCount (step beh s e) = fireCount s + (if e = Fire then 1 else 0)"
proof (cases e)
  case (SetOver b)
  then show ?thesis using t by (simp add: setOver_def)
next
  case (SetDown b)
  then show ?thesis using t np
    by (cases b) (auto simp: setDown_def downListener_def timer_stop_def Let_def)
next
  case (SetEnabled b)
  then show ?thesis using t
    by (cases b) (simp_all add: setEnabled_def enabledListener_def timer_stop_def)
next
  case TimerTick
  then show ?thesis using t by (simp add: timerTick_def timer_tick_def)
next
  case (AddL l)
  then show ?thesis using t by (simp add: addListener_def)
next
  case (RemoveL l)
  then show ?thesis using t by (simp add: removeListener_def Let_def)
next
  case Fire
  then show ?thesis using t by (simp add: fire_fields fire_timer_stopped)
qed

lemma step_stopped:
  assumes "timerStopped s" "\<not> (e = SetDown True \<and> \<not> down s \<and> enabled s)"
  shows "timerStopped (step beh s e)"
    "timerFireCount (step beh s e) = timerFireCount s"
    "fireCount (step beh s e) = fireCount s + (if e = Fire then 1 else 0)"
proof -
  from assms(1) obtain t where t: "timer s = Some t" "\<not> running t"
    by (auto simp: timerStopped_def split: option.splits)
  note r = step_stopped_timer [OF t assms(2), of beh]
  from r t(2) show "timerStopped (step beh s e)" by (simp add: timerStopped_def)
  from r show "timerFireCount (step beh s e) = timerFireCount s" by simp
  from r show "fireCount (step beh s e) = fireCount s + (if e = Fire then 1 else 0)" by simp
qed

lemma run_stopped:
  "timerStopped s \<Longrightarrow> noPress beh s es \<Longrightarrow>
     timerStopped (run beh s es) \<and> timerFireCount (run beh s es) = timerFireCount s
     \<and> fireCount (run beh s es) = fireCount s + count_list es Fire"
proof (induction es arbitrary: s)
  case Nil
  then show ?case by (simp add: run_def)
next
  case (Cons e es)
  from Cons.prems have np: "\<not> (e = SetDown True \<and> \<not> down s \<and> enabled s)"
    and rest: "noPress beh (step beh s e) es" by simp_all
  note st = step_stopped [OF Cons.prems(1) np, of beh]
  have "run beh s (e # es) = run beh (step beh s e) es" by (simp add: run_def)
  with Cons.IH [OF st(1) rest] st(2,3) show ?case by auto
qed

text \<open>
  When the button is disabled by an operation of its own while it is held down, the
  timer is stopped without a fire, and through every later history without a new press
  it stays stopped and its callback is never called.
\<close>

lemma disable_operation_cancels_hold:
  assumes "fireOnHold opts" and "s = run beh (PushButtonModel_new beh opts) ops"
    and "down s" and "enabled s"
    and "noPress beh (setEnabled False s) after"
  shows "timerStopped (setEnabled False s) \<and> fireCount (setEnabled False s) = fireCount s
       \<and> timerStopped (run beh (setEnabled False s) after)
       \<and> timerFireCount (run beh (setEnabled False s) after) = timerFireCount s
       \<and> fireCount (run beh (setEnabled False s) after) = fireCount s + count_list after Fire"
proof -
  have t: "timer s \<noteq> None"
    using assms(1,2) by (simp add: run_timer_Some new_timer_Some)
  note d = disable_stops [OF t assms(4)]
  from run_stopped [OF d(1) assms(5)] d show ?thesis by simp
qed

text \<open>
  C1. The claim is that whenever \<open>enabledProperty\<close> becomes false while the button is
  held down, the hold timer is stopped and does not fire again before a new press. The
  listener on \<open>enabledProperty\<close> is there for that ("Stop the timer when the button is
  disabled"), but the listener on \<open>downProperty\<close> starts the timer after the press's
  own \<open>fire()\<close> without looking at \<open>enabledProperty\<close> again. With fireOnDown and
  fireOnHold and a listener that disables the button: the press calls the listener, the
  button is down and disabled, the timer is started all the same, and two ticks later
  the timer has fired twice, with no new press.
\<close>

theorem disable_in_press_listener_starts_timer:
  "(let beh = (\<lambda>l::nat. if l = 1 then [SetEnabledAction False] else []);
        opts = \<lparr>fireOnDown = True, listener = Some 1, fireOnHold = True,
               fireOnHoldDelay = 400, fireOnHoldInterval = 100\<rparr>;
        s0 = run beh (PushButtonModel_new beh opts) [SetOver True];
        s = step beh s0 (SetDown True)
    in enabled s0 \<and> \<not> down s0
     \<and> down s \<and> \<not> enabled s \<and> timer s = Some \<lparr>running = True, fired = False\<rparr>
     \<and> fireCount s = 1 \<and> timerFireCount s = 0
     \<and> noPress beh s [TimerTick, TimerTick]
     \<and> timerFireCount (run beh s [TimerTick, TimerTick]) = 2
     \<and> fireCount (run beh s [TimerTick, TimerTick]) = 3)"
  by (simp add: Let_def run_def PushButtonModel_new_def downListener_def enabledListener_def
        setOver_def setDown_def setEnabled_def fire_def callListener_def timerTick_def
        timer_stop_def timer_tick_def timer_start_def timer_new_def timerCallback_def)

section \<open>Sticky toggle button\<close>

lemma press_up:
  assumes "enabled s" "over s" "\<not> down s" "valueProperty s = valueUp s"
  shows "sticky_setDown a (Suc (Suc (Suc m))) True s =
     Inr (s\<lparr>down := True, valueProperty := valueDown s, pressedWhileDownProperty := False,
            toggledCount := toggledCount s + 1\<rparr>)"
  using assms by (simp add: js_assert_def)

lemma release_same_gesture:
  assumes "enabled s" "over s" "down s" "valueProperty s = valueDown s"
    "\<not> pressedWhileDownProperty s"
  shows "sticky_setDown a (Suc m) False s =
     Inr (s\<lparr>down := False, pressedWhileDownProperty := True\<rparr>)"
  using assms by simp

lemma press_down:
  assumes "\<not> down s" "valueProperty s = valueDown s" "valueUp s \<noteq> valueDown s"
  shows "sticky_setDown a (Suc m) True s = Inr (s\<lparr>down := True\<rparr>)"
  using assms by simp

lemma release_later_gesture:
  assumes "enabled s" "over s" "down s" "valueProperty s = valueDown s"
    "pressedWhileDownProperty s" "valueUp s \<noteq> valueDown s"
  shows "sticky_setDown a (Suc (Suc (Suc m))) False s =
     Inr (s\<lparr>down := False, valueProperty := valueUp s, toggledCount := toggledCount s + 1\<rparr>)"
  using assms by (simp add: js_assert_def)

lemma fuel3: "3 \<le> n \<Longrightarrow> \<exists>m. n = Suc (Suc (Suc m))"
  by (metis Suc_le_D numeral_3_eq_3 Suc_le_mono le0 add_Suc add_Suc_right nat_le_iff_add plus_nat.add_0)

lemma setDown_guardInv:
  assumes "guardInv s"
  shows "\<exists>s'. sticky_setDown a (Suc (Suc (Suc m))) b s = Inr s' \<and> guardInv s'
     \<and> valueUp s' = valueUp s \<and> valueDown s' = valueDown s"
  using assms by (auto simp: guardInv_def js_assert_def)

lemma setValue_guardInv:
  assumes "guardInv s"
  shows "\<exists>s'. sticky_setValue a (Suc (Suc (Suc m))) v s = Inr s' \<and> guardInv s'
     \<and> valueUp s' = valueUp s \<and> valueDown s' = valueDown s"
  using assms by (auto simp: guardInv_def js_assert_def)

lemma downListener_total:
  "\<exists>s'. sticky_downListener a (Suc (Suc (Suc m))) False s = Inr s'
     \<and> valueUp s' = valueUp s \<and> valueDown s' = valueDown s \<and> enabled s' = enabled s"
  by (auto simp: js_assert_def)

lemma step_guardInv:
  assumes "guardInv s"
  shows "\<exists>s'. sticky_step a (Suc (Suc (Suc m))) s x = Inr s' \<and> guardInv s'
     \<and> valueUp s' = valueUp s \<and> valueDown s' = valueDown s"
proof (cases x)
  case (StickySetOver b)
  then show ?thesis using assms by (auto simp: sticky_setOver_def guardInv_def)
next
  case (StickySetDown b)
  then show ?thesis using setDown_guardInv [OF assms, of a m b] by simp
next
  case (StickySetEnabled b)
  then show ?thesis using assms
    by (auto simp: sticky_setEnabled_def enabledPropertyOnListener_def guardInv_def)
next
  case (StickySetValue v)
  then show ?thesis using setValue_guardInv [OF assms, of a m v] by simp
qed

lemma run_guardInv:
  "guardInv s \<Longrightarrow>
   \<exists>s'. sticky_run a (Suc (Suc (Suc m))) s xs = Inr s' \<and> guardInv s'
     \<and> valueUp s' = valueUp s \<and> valueDown s' = valueDown s"
proof (induction xs arbitrary: s)
  case Nil
  then show ?case by simp
next
  case (Cons x xs)
  from step_guardInv [OF Cons.prems, of a m x]
  obtain s1 where 1: "sticky_step a (Suc (Suc (Suc m))) s x = Inr s1" "guardInv s1"
    "valueUp s1 = valueUp s" "valueDown s1 = valueDown s" by blast
  from Cons.IH [OF 1(2)] obtain s' where
    2: "sticky_run a (Suc (Suc (Suc m))) s1 xs = Inr s'" "guardInv s'"
    "valueUp s' = valueUp s1" "valueDown s' = valueDown s1" by blast
  from 1 2 show ?case by simp
qed

lemma new_guardInv:
  "\<exists>s0. StickyToggleButtonModel_new a (Suc (Suc (Suc m))) vUp vDown v = Inr s0 \<and> guardInv s0
     \<and> valueUp s0 = vUp \<and> valueDown s0 = vDown"
  by (auto simp: StickyToggleButtonModel_new_def Let_def enabledPropertyOnListener_def
        guardInv_def js_assert_def)

lemma cycle_from_up:
  assumes "enabled s" "over s" "\<not> down s" "valueProperty s = valueUp s"
  shows "\<exists>s'. pressRelease a (Suc (Suc (Suc m))) s = Inr s' \<and> valueProperty s' = valueDown s
                 \<and> toggledCount s' = toggledCount s + 1
                 \<and> enabled s' \<and> over s' \<and> \<not> down s' \<and> pressedWhileDownProperty s'
                 \<and> valueUp s' = valueUp s \<and> valueDown s' = valueDown s"
proof -
  let ?s1 = "s\<lparr>down := True, valueProperty := valueDown s, pressedWhileDownProperty := False,
            toggledCount := toggledCount s + 1\<rparr>"
  have 1: "sticky_setDown a (Suc (Suc (Suc m))) True s = Inr ?s1"
    using assms by (rule press_up)
  have 2: "sticky_setDown a (Suc (Suc (Suc m))) False ?s1
      = Inr (?s1\<lparr>down := False, pressedWhileDownProperty := True\<rparr>)"
    by (rule release_same_gesture) (simp_all add: assms)
  show ?thesis using 1 2 assms by (simp add: pressRelease_def)
qed

lemma cycle_from_down:
  assumes "enabled s" "over s" "\<not> down s" "valueProperty s = valueDown s"
    "pressedWhileDownProperty s"
  shows "\<exists>s'. pressRelease a (Suc (Suc (Suc m))) s = Inr s' \<and> valueProperty s' = valueUp s
                 \<and> toggledCount s' = toggledCount s + 1"
proof (cases "valueUp s = valueDown s")
  case True
  with cycle_from_up [OF assms(1-3), of a m] assms(4) show ?thesis by auto
next
  case False
  have 1: "sticky_setDown a (Suc (Suc (Suc m))) True s = Inr (s\<lparr>down := True\<rparr>)"
    using assms(3,4) False by (rule press_down)
  have 2: "sticky_setDown a (Suc (Suc (Suc m))) False (s\<lparr>down := True\<rparr>) =
      Inr (s\<lparr>down := True\<rparr>\<lparr>down := False, valueProperty := valueUp (s\<lparr>down := True\<rparr>),
             toggledCount := toggledCount (s\<lparr>down := True\<rparr>) + 1\<rparr>)"
    by (rule release_later_gesture) (simp_all add: assms False)
  show ?thesis using 1 2 by (simp add: pressRelease_def)
qed

text \<open>
  C4. A press followed by a release returns (three units of fuel are enough), and: on
  any sticky toggle button that is enabled, with the pointer over it, not pressed and
  at \<open>valueUp\<close>, it toggles once and ends at \<open>valueDown\<close>, with the guard flag set
  and the button again enabled, over and not pressed; and in every state that a model
  reaches from its constructor by any history of pointer moves, presses, releases,
  enabling, disabling and sets of the bound property, if the button is enabled, with the
  pointer over it, not pressed and at \<open>valueDown\<close>, it toggles once and ends at
  \<open>valueUp\<close>. The constructor and the history return as well. So the second cycle
  toggles wherever and however the gesture that produced the down value was released:
  over the button, outside it, or while the button was disabled.
\<close>

theorem sticky_press_release_cycle:
  assumes "3 \<le> n"
  shows "(enabled t \<and> over t \<and> \<not> down t \<and> valueProperty t = valueUp t \<longrightarrow>
           (\<exists>t'. pressRelease a n t = Inr t' \<and> valueProperty t' = valueDown t
                 \<and> toggledCount t' = toggledCount t + 1
                 \<and> enabled t' \<and> over t' \<and> \<not> down t' \<and> pressedWhileDownProperty t'
                 \<and> valueUp t' = valueUp t \<and> valueDown t' = valueDown t))
       \<and> (\<exists>s0 s. StickyToggleButtonModel_new a n vUp vDown v = Inr s0
             \<and> sticky_run a n s0 ops = Inr s
             \<and> valueUp s = vUp \<and> valueDown s = vDown
             \<and> (enabled s \<and> over s \<and> \<not> down s \<and> valueProperty s = valueDown s \<longrightarrow>
                  (\<exists>s'. pressRelease a n s = Inr s' \<and> valueProperty s' = valueUp s
                        \<and> toggledCount s' = toggledCount s + 1)))"
proof -
  from assms obtain m where n: "n = Suc (Suc (Suc m))" using fuel3 by blast
  have first: "enabled t \<and> over t \<and> \<not> down t \<and> valueProperty t = valueUp t \<longrightarrow>
           (\<exists>t'. pressRelease a n t = Inr t' \<and> valueProperty t' = valueDown t
                 \<and> toggledCount t' = toggledCount t + 1
                 \<and> enabled t' \<and> over t' \<and> \<not> down t' \<and> pressedWhileDownProperty t'
                 \<and> valueUp t' = valueUp t \<and> valueDown t' = valueDown t)"
    unfolding n using cycle_from_up [of t a m] by blast
  from new_guardInv [of a m vUp vDown v] obtain s0 where
    s0: "StickyToggleButtonModel_new a n vUp vDown v = Inr s0" "guardInv s0"
      "valueUp s0 = vUp" "valueDown s0 = vDown"
    unfolding n by blast
  from run_guardInv [OF s0(2), of a m ops] obtain s where
    s: "sticky_run a n s0 ops = Inr s" "guardInv s" "valueUp s = valueUp s0"
      "valueDown s = valueDown s0"
    unfolding n by blast
  have second: "enabled s \<and> over s \<and> \<not> down s \<and> valueProperty s = valueDown s \<longrightarrow>
                  (\<exists>s'. pressRelease a n s = Inr s' \<and> valueProperty s' = valueUp s
                        \<and> toggledCount s' = toggledCount s + 1)"
  proof
    assume h: "enabled s \<and> over s \<and> \<not> down s \<and> valueProperty s = valueDown s"
    with s(2) have "pressedWhileDownProperty s" by (simp add: guardInv_def)
    with h show "\<exists>s'. pressRelease a n s = Inr s' \<and> valueProperty s' = valueUp s
                        \<and> toggledCount s' = toggledCount s + 1"
      unfolding n using cycle_from_down [of s a m] by blast
  qed
  from first s0 s second show ?thesis by auto
qed

theorem sticky_press_release_cycle_witness:
  "StickyToggleButtonModel_new True 3 ''up'' ''down'' ''up''
   = Inr \<lparr>over = False, down = False, enabled = True, valueUp = ''up'', valueDown = ''down'',
      valueProperty = ''up'', pressedWhileDownProperty = True, toggledCount = 0\<rparr>
   \<and> sticky_run True 3
     \<lparr>over = False, down = False, enabled = True, valueUp = ''up'', valueDown = ''down'',
      valueProperty = ''up'', pressedWhileDownProperty = True, toggledCount = 0\<rparr>
     [StickySetOver True, StickySetDown True, StickySetEnabled False, StickySetDown False,
      StickySetEnabled True]
   = Inr \<lparr>over = True, down = False, enabled = True, valueUp = ''up'', valueDown = ''down'',
      valueProperty = ''down'', pressedWhileDownProperty = True, toggledCount = 1\<rparr>
   \<and> pressRelease True 3
     \<lparr>over = True, down = False, enabled = True, valueUp = ''up'', valueDown = ''down'',
      valueProperty = ''down'', pressedWhileDownProperty = True, toggledCount = 1\<rparr>
   = Inr \<lparr>over = True, down = False, enabled = True, valueUp = ''up'', valueDown = ''down'',
      valueProperty = ''up'', pressedWhileDownProperty = True, toggledCount = 2\<rparr>"
  using sticky_press_release_cycle [of 3 "\<lparr>over = True, down = False, enabled = True,
      valueUp = ''up'', valueDown = ''down'',
      valueProperty = ''up'', pressedWhileDownProperty = True, toggledCount = 0\<rparr>" True
      "''up''" "''down''" "''up''"
      "[StickySetOver True, StickySetDown True, StickySetEnabled False, StickySetDown False,
        StickySetEnabled True]"]
  by (simp add: StickyToggleButtonModel_new_def pressRelease_def js_assert_def numeral_3_eq_3
        sticky_setOver_def sticky_setEnabled_def enabledPropertyOnListener_def)

text \<open>
  C5, as the spec states it, fails: on a new sticky toggle button with the pointer over
  it, the press alone takes the value from \<open>''up''\<close> to \<open>''down''\<close>.
\<close>

theorem sticky_flip_on_press_counterexample:
  "StickyToggleButtonModel_new True 3 ''up'' ''down'' ''up''
   = Inr \<lparr>over = False, down = False, enabled = True, valueUp = ''up'', valueDown = ''down'',
      valueProperty = ''up'', pressedWhileDownProperty = True, toggledCount = 0\<rparr>
   \<and> sticky_setDown True 3 True (sticky_setOver True
      \<lparr>over = False, down = False, enabled = True, valueUp = ''up'', valueDown = ''down'',
      valueProperty = ''up'', pressedWhileDownProperty = True, toggledCount = 0\<rparr>)
   = Inr \<lparr>over = True, down = True, enabled = True, valueUp = ''up'', valueDown = ''down'',
      valueProperty = ''down'', pressedWhileDownProperty = False, toggledCount = 1\<rparr>"
  by (simp add: StickyToggleButtonModel_new_def sticky_setOver_def enabledPropertyOnListener_def
        js_assert_def numeral_3_eq_3)

lemma within_gesture_step:
  assumes "withinGesture x" "down s" "\<not> pressedWhileDownProperty s"
  shows "\<exists>s'. sticky_step a n s x = Inr s' \<and> down s' \<and> \<not> pressedWhileDownProperty s'
       \<and> valueProperty s' = valueProperty s \<and> toggledCount s' = toggledCount s
       \<and> valueUp s' = valueUp s \<and> valueDown s' = valueDown s"
  using assms
  by (cases x)
     (auto simp: sticky_setOver_def sticky_setEnabled_def enabledPropertyOnListener_def)

lemma within_gesture_run:
  "list_all withinGesture xs \<Longrightarrow> down s \<Longrightarrow> \<not> pressedWhileDownProperty s \<Longrightarrow>
   \<exists>s'. sticky_run a n s xs = Inr s' \<and> down s' \<and> \<not> pressedWhileDownProperty s'
       \<and> valueProperty s' = valueProperty s \<and> toggledCount s' = toggledCount s
       \<and> valueUp s' = valueUp s \<and> valueDown s' = valueDown s"
proof (induction xs arbitrary: s)
  case Nil
  then show ?case by simp
next
  case (Cons x xs)
  from Cons.prems have w: "withinGesture x" "list_all withinGesture xs" by simp_all
  from within_gesture_step [OF w(1) Cons.prems(2,3), of a n]
  obtain s1 where 1: "sticky_step a n s x = Inr s1" "down s1" "\<not> pressedWhileDownProperty s1"
    "valueProperty s1 = valueProperty s" "toggledCount s1 = toggledCount s"
    "valueUp s1 = valueUp s" "valueDown s1 = valueDown s" by blast
  from Cons.IH [OF w(2) 1(2,3)] obtain s' where
    2: "sticky_run a n s1 xs = Inr s'" "down s'" "\<not> pressedWhileDownProperty s'"
    "valueProperty s' = valueProperty s1" "toggledCount s' = toggledCount s1"
    "valueUp s' = valueUp s1" "valueDown s' = valueDown s1" by blast
  from 1 2 show ?case by simp
qed

lemma release_within_gesture:
  assumes "down s" "\<not> pressedWhileDownProperty s" "valueProperty s = valueDown s"
  shows "\<exists>s'. sticky_setDown a (Suc m) False s = Inr s' \<and> valueProperty s' = valueProperty s
       \<and> toggledCount s' = toggledCount s
       \<and> pressedWhileDownProperty s' = (enabled s \<or> \<not> over s)"
  using assms by auto

lemma same_gesture_no_second_toggle:
  assumes "enabled s" "over s" "\<not> down s" "valueProperty s = valueUp s"
    "list_all withinGesture mid"
  shows "\<exists>s1 s2 s3. sticky_setDown a (Suc (Suc (Suc m))) True s = Inr s1
           \<and> valueProperty s1 = valueDown s \<and> toggledCount s1 = toggledCount s + 1
           \<and> sticky_run a (Suc (Suc (Suc m))) s1 mid = Inr s2
           \<and> sticky_setDown a (Suc (Suc (Suc m))) False s2 = Inr s3
           \<and> valueProperty s3 = valueDown s \<and> toggledCount s3 = toggledCount s1
           \<and> pressedWhileDownProperty s3 = (enabled s2 \<or> \<not> over s2)"
proof -
  let ?s1 = "s\<lparr>down := True, valueProperty := valueDown s, pressedWhileDownProperty := False,
            toggledCount := toggledCount s + 1\<rparr>"
  have 1: "sticky_setDown a (Suc (Suc (Suc m))) True s = Inr ?s1"
    using assms(1-4) by (rule press_up)
  from within_gesture_run [OF assms(5), of ?s1 a "Suc (Suc (Suc m))"]
  obtain s2 where 2: "sticky_run a (Suc (Suc (Suc m))) ?s1 mid = Inr s2" "down s2"
    "\<not> pressedWhileDownProperty s2" "valueProperty s2 = valueDown s"
    "toggledCount s2 = toggledCount s + 1" "valueDown s2 = valueDown s"
    by auto
  from release_within_gesture [OF 2(2,3), of a "Suc (Suc m)"] 2(4,6)
  obtain s3 where 3: "sticky_setDown a (Suc (Suc (Suc m))) False s2 = Inr s3"
    "valueProperty s3 = valueProperty s2" "toggledCount s3 = toggledCount s2"
    "pressedWhileDownProperty s3 = (enabled s2 \<or> \<not> over s2)" by auto
  from 1 2 3 show ?thesis by simp
qed

text \<open>
  C5, amended. With two different values: on a button that is enabled, over, not pressed
  and at \<open>valueUp\<close>, the press itself toggles to \<open>valueDown\<close>; and whatever pointer
  moves and disabling come between that press and the release, as long as the button is
  not enabled again in between, the release does not toggle again, and it sets the
  guard flag unless the button is then disabled with the pointer over it. A press never
  takes the value away from \<open>valueDown\<close>; a release on a button that is enabled, over,
  pressed and at \<open>valueDown\<close> toggles to \<open>valueUp\<close> exactly when the guard flag is
  set; and a press or release on a button that is disabled or not over toggles nothing.
\<close>

theorem sticky_toggle_guard:
  assumes "3 \<le> n" "valueUp s \<noteq> valueDown s"
  shows "(enabled s \<and> over s \<and> \<not> down s \<and> valueProperty s = valueUp s
          \<and> list_all withinGesture mid \<longrightarrow>
           (\<exists>s1 s2 s3. sticky_setDown a n True s = Inr s1 \<and> valueProperty s1 = valueDown s
                 \<and> toggledCount s1 = toggledCount s + 1
                 \<and> sticky_run a n s1 mid = Inr s2
                 \<and> sticky_setDown a n False s2 = Inr s3 \<and> valueProperty s3 = valueDown s
                 \<and> toggledCount s3 = toggledCount s1
                 \<and> pressedWhileDownProperty s3 = (enabled s2 \<or> \<not> over s2)))
       \<and> (valueProperty s = valueDown s \<longrightarrow>
           (\<exists>s1. sticky_setDown a n True s = Inr s1 \<and> valueProperty s1 = valueDown s
                 \<and> toggledCount s1 = toggledCount s))
       \<and> (enabled s \<and> over s \<and> down s \<and> valueProperty s = valueDown s \<longrightarrow>
           (\<exists>s1. sticky_setDown a n False s = Inr s1
                 \<and> (valueProperty s1 = valueUp s) = pressedWhileDownProperty s
                 \<and> toggledCount s1 = toggledCount s + (if pressedWhileDownProperty s then 1 else 0)))
       \<and> (\<not> (enabled s \<and> over s) \<longrightarrow>
           (\<exists>s1. sticky_setDown a n b s = Inr s1 \<and> valueProperty s1 = valueProperty s
                 \<and> toggledCount s1 = toggledCount s))"
proof -
  from assms(1) obtain m where n: "n = Suc (Suc (Suc m))" using fuel3 by blast
  have first: "enabled s \<and> over s \<and> \<not> down s \<and> valueProperty s = valueUp s
          \<and> list_all withinGesture mid \<longrightarrow>
           (\<exists>s1 s2 s3. sticky_setDown a n True s = Inr s1 \<and> valueProperty s1 = valueDown s
                 \<and> toggledCount s1 = toggledCount s + 1
                 \<and> sticky_run a n s1 mid = Inr s2
                 \<and> sticky_setDown a n False s2 = Inr s3 \<and> valueProperty s3 = valueDown s
                 \<and> toggledCount s3 = toggledCount s1
                 \<and> pressedWhileDownProperty s3 = (enabled s2 \<or> \<not> over s2))"
    unfolding n using same_gesture_no_second_toggle [of s mid a m] by blast
  have rest: "(valueProperty s = valueDown s \<longrightarrow>
           (\<exists>s1. sticky_setDown a n True s = Inr s1 \<and> valueProperty s1 = valueDown s
                 \<and> toggledCount s1 = toggledCount s))
       \<and> (enabled s \<and> over s \<and> down s \<and> valueProperty s = valueDown s \<longrightarrow>
           (\<exists>s1. sticky_setDown a n False s = Inr s1
                 \<and> (valueProperty s1 = valueUp s) = pressedWhileDownProperty s
                 \<and> toggledCount s1 = toggledCount s + (if pressedWhileDownProperty s then 1 else 0)))
       \<and> (\<not> (enabled s \<and> over s) \<longrightarrow>
           (\<exists>s1. sticky_setDown a n b s = Inr s1 \<and> valueProperty s1 = valueProperty s
                 \<and> toggledCount s1 = toggledCount s))"
    unfolding n using assms(2) by (auto simp: js_assert_def)
  from first rest show ?thesis by blast
qed

theorem sticky_toggle_guard_witness:
  "sticky_setDown True 3 True
     \<lparr>over = True, down = False, enabled = True, valueUp = ''up'', valueDown = ''down'',
      valueProperty = ''up'', pressedWhileDownProperty = True, toggledCount = 0\<rparr>
   = Inr \<lparr>over = True, down = True, enabled = True, valueUp = ''up'', valueDown = ''down'',
      valueProperty = ''down'', pressedWhileDownProperty = False, toggledCount = 1\<rparr>
   \<and> sticky_run True 3
     \<lparr>over = True, down = True, enabled = True, valueUp = ''up'', valueDown = ''down'',
      valueProperty = ''down'', pressedWhileDownProperty = False, toggledCount = 1\<rparr>
     [StickySetOver False, StickySetEnabled False, StickySetOver True]
   = Inr \<lparr>over = True, down = True, enabled = False, valueUp = ''up'', valueDown = ''down'',
      valueProperty = ''down'', pressedWhileDownProperty = False, toggledCount = 1\<rparr>
   \<and> sticky_setDown True 3 False
     \<lparr>over = True, down = True, enabled = False, valueUp = ''up'', valueDown = ''down'',
      valueProperty = ''down'', pressedWhileDownProperty = False, toggledCount = 1\<rparr>
   = Inr \<lparr>over = True, down = False, enabled = False, valueUp = ''up'', valueDown = ''down'',
      valueProperty = ''down'', pressedWhileDownProperty = False, toggledCount = 1\<rparr>"
  using sticky_toggle_guard [of 3 "\<lparr>over = True, down = False, enabled = True,
      valueUp = ''up'', valueDown = ''down'',
      valueProperty = ''up'', pressedWhileDownProperty = True, toggledCount = 0\<rparr>"
      "[StickySetOver False, StickySetEnabled False, StickySetOver True]" True True]
  by (simp add: js_assert_def numeral_3_eq_3 sticky_setOver_def sticky_setEnabled_def
        enabledPropertyOnListener_def)

text \<open>
  The case that the amended C5 leaves out: when the button is disabled and enabled again
  between the press and the release, the listener on \<open>enabledProperty\<close> sets the guard
  flag, and the release of the same gesture toggles a second time.
\<close>

lemma reenable_within_gesture_toggles_twice:
  "sticky_run True 3
     \<lparr>over = True, down = False, enabled = True, valueUp = ''up'', valueDown = ''down'',
      valueProperty = ''up'', pressedWhileDownProperty = True, toggledCount = 0\<rparr>
     [StickySetDown True, StickySetEnabled False, StickySetEnabled True, StickySetDown False]
   = Inr \<lparr>over = True, down = False, enabled = True, valueUp = ''up'', valueDown = ''down'',
      valueProperty = ''up'', pressedWhileDownProperty = True, toggledCount = 2\<rparr>"
  by (simp add: js_assert_def numeral_3_eq_3 sticky_setEnabled_def enabledPropertyOnListener_def)

section \<open>Toggle button of the experimental buttons\<close>

text \<open>
  C6, as the spec states it, fails for a model with the default \<open>toggleOnDown: false\<close>:
  the press of the pointer that is over the enabled button sets the interaction state
  to pressed and leaves \<open>buttonStateUp\<close> as it is, and the matching release flips it.
\<close>

theorem toggle_default_on_press_counterexample:
  "toggle_down (7::nat)
     \<lparr>toggleOnDown = False, downPointer = None, overPointer = Some 7,
      buttonEnabled = True, interactionState = ''over'', buttonStateUp = True\<rparr>
   = \<lparr>toggleOnDown = False, downPointer = Some 7, overPointer = Some 7,
      buttonEnabled = True, interactionState = ''pressed'', buttonStateUp = True\<rparr>
   \<and> toggle_up 7
     \<lparr>toggleOnDown = False, downPointer = Some 7, overPointer = Some 7,
      buttonEnabled = True, interactionState = ''pressed'', buttonStateUp = True\<rparr>
   = \<lparr>toggleOnDown = False, downPointer = None, overPointer = Some 7,
      buttonEnabled = True, interactionState = ''pressed'', buttonStateUp = False\<rparr>"
  by (simp add: toggle_down_def toggle_up_def Let_def)

text \<open>
  C6, amended. With \<open>toggleOnDown\<close>, a down event of the tracked pointer on an enabled
  button flips \<open>buttonStateUp\<close> at once and sets the interaction state to pressed, and
  an up event never flips it: on an enabled button it sets the interaction state to
  idle when no pointer is over, else to pressed or over after \<open>buttonStateUp\<close>. Without
  \<open>toggleOnDown\<close>, a down event never flips \<open>buttonStateUp\<close>, and an up event flips it
  exactly when the button is enabled and the pointer is both the down pointer and the
  over pointer.
\<close>

theorem toggle_on_down_or_up:
  "(toggleOnDown s \<and> buttonEnabled s \<and> (downPointer s = None \<or> downPointer s = Some p) \<longrightarrow>
      buttonStateUp (toggle_down p s) = (\<not> buttonStateUp s)
    \<and> interactionState (toggle_down p s) = ''pressed'')
   \<and> (toggleOnDown s \<longrightarrow>
      buttonStateUp (toggle_up p s) = buttonStateUp s
    \<and> (buttonEnabled s \<longrightarrow> interactionState (toggle_up p s) =
          (if overPointer s = None then ''idle''
           else if buttonStateUp s then ''pressed'' else ''over'')))
   \<and> (\<not> toggleOnDown s \<longrightarrow>
      buttonStateUp (toggle_down p s) = buttonStateUp s
    \<and> buttonStateUp (toggle_up p s) =
        (if buttonEnabled s \<and> downPointer s = Some p \<and> overPointer s = Some p
         then \<not> buttonStateUp s else buttonStateUp s))"
  by (auto simp: toggle_down_def toggle_up_def Let_def)

theorem toggle_on_down_or_up_witness:
  "buttonStateUp (toggle_down (7::nat)
     \<lparr>toggleOnDown = True, downPointer = None, overPointer = Some 7,
      buttonEnabled = True, interactionState = ''over'', buttonStateUp = True\<rparr>) = False
   \<and> toggle_up (7::nat)
     \<lparr>toggleOnDown = True, downPointer = Some 7, overPointer = Some 7,
      buttonEnabled = True, interactionState = ''pressed'', buttonStateUp = False\<rparr>
    = \<lparr>toggleOnDown = True, downPointer = None, overPointer = Some 7,
      buttonEnabled = True, interactionState = ''over'', buttonStateUp = False\<rparr>
   \<and> buttonStateUp (toggle_up (7::nat)
     \<lparr>toggleOnDown = False, downPointer = Some 7, overPointer = Some 7,
      buttonEnabled = True, interactionState = ''pressed'', buttonStateUp = True\<rparr>) = False"
  using toggle_on_down_or_up [of "\<lparr>toggleOnDown = True, downPointer = None, overPointer = Some 7,
      buttonEnabled = True, interactionState = ''over'', buttonStateUp = True\<rparr>" "7::nat"]
    toggle_on_down_or_up [of "\<lparr>toggleOnDown = False, downPointer = Some 7, overPointer = Some 7,
      buttonEnabled = True, interactionState = ''pressed'', buttonStateUp = True\<rparr>" "7::nat"]
  by (simp add: toggle_up_def Let_def)

section \<open>Appearance strategies\<close>

text \<open>
  C7. For a value that is not one of the five members of ButtonInteractionState, the
  \<open>updateAppearance\<close> of the ThreeD strategy and that of the Flat strategy throw the
  error "unsupported interactionState". For each of the five members neither throws:
  the ThreeD strategy assigns the button's fill and the overlay's fill and stroke (and
  the button's stroke in the two disabled states), the Flat strategy assigns the
  button's fill and stroke.
\<close>

theorem updateAppearance_total_on_members:
  "ThreeD_updateAppearance c (Other v) n = Inl (Error (''unsupported interactionState: '' @ v))
   \<and> Flat_updateAppearance f (Other v) b = Inl (Error (''unsupported interactionState: '' @ v))
   \<and> (\<exists>n'. ThreeD_updateAppearance c (Member m) n = Inr n'
          \<and> fill (button n') =
              (case m of IDLE \<Rightarrow> upFillVertical c | OVER \<Rightarrow> overFillVertical c
               | PRESSED \<Rightarrow> downFillVertical c | DISABLED \<Rightarrow> disabledFillVertical c
               | DISABLED_PRESSED \<Rightarrow> disabledPressedFillVertical c)
          \<and> fill (overlayForHorizGradient n') =
              (case m of IDLE \<Rightarrow> upFillHorizontal c | OVER \<Rightarrow> overFillHorizontal c
               | PRESSED \<Rightarrow> overFillHorizontal c | DISABLED \<Rightarrow> disabledFillHorizontal c
               | DISABLED_PRESSED \<Rightarrow> disabledFillHorizontal c)
          \<and> stroke (overlayForHorizGradient n') =
              (if m = DISABLED \<or> m = DISABLED_PRESSED then disabledStroke c else enabledStroke c)
          \<and> stroke (button n') =
              (if m = DISABLED \<or> m = DISABLED_PRESSED then disabledStroke c else stroke (button n)))
   \<and> (\<exists>b'. Flat_updateAppearance f (Member m) b = Inr b'
          \<and> fill b' =
              (case m of IDLE \<Rightarrow> upFill f | OVER \<Rightarrow> overFill f | PRESSED \<Rightarrow> downFill f
               | DISABLED \<Rightarrow> disabledFill f
               | DISABLED_PRESSED \<Rightarrow> flat_disabledPressedFillVertical f)
          \<and> stroke b' =
              (if m = DISABLED \<or> m = DISABLED_PRESSED then flat_disabledStroke f
               else flat_enabledStroke f))"
  by (cases m) simp_all

theorem updateAppearance_total_on_members_witness:
  "ThreeD_updateAppearance
     \<lparr>upFillVertical = ''upV'', overFillVertical = ''overV'', downFillVertical = ''downV'',
      disabledFillVertical = ''disabledV'', disabledPressedFillVertical = ''disabledPressedV'',
      upFillHorizontal = ''upH'', overFillHorizontal = ''overH'',
      disabledFillHorizontal = ''disabledH'',
      enabledStroke = ''darker4'', disabledStroke = ''disabledDarker4''\<rparr>
     (Member DISABLED)
     \<lparr>button = \<lparr>fill = ''base'', stroke = ''none''\<rparr>,
      overlayForHorizGradient = \<lparr>fill = ''none'', stroke = ''none''\<rparr>\<rparr>
   = Inr \<lparr>button = \<lparr>fill = ''disabledV'', stroke = ''disabledDarker4''\<rparr>,
          overlayForHorizGradient = \<lparr>fill = ''disabledH'', stroke = ''disabledDarker4''\<rparr>\<rparr>
   \<and> Flat_updateAppearance
     \<lparr>upFill = ''base'', overFill = ''brighter4'', downFill = ''darker4'',
      disabledFill = ''disabledBase'', flat_disabledPressedFillVertical = ''disabledBase'',
      flat_enabledStroke = ''darker4'', flat_disabledStroke = ''disabledDarker4''\<rparr>
     (Member PRESSED) \<lparr>fill = ''base'', stroke = ''none''\<rparr>
   = Inr \<lparr>fill = ''darker4'', stroke = ''darker4''\<rparr>
   \<and> Flat_updateAppearance
     \<lparr>upFill = ''base'', overFill = ''brighter4'', downFill = ''darker4'',
      disabledFill = ''disabledBase'', flat_disabledPressedFillVertical = ''disabledBase'',
      flat_enabledStroke = ''darker4'', flat_disabledStroke = ''disabledDarker4''\<rparr>
     (Other ''SELECTED'') \<lparr>fill = ''base'', stroke = ''none''\<rparr>
   = Inl (Error ''unsupported interactionState: SELECTED'')"
  using updateAppearance_total_on_members [of
     "\<lparr>upFillVertical = ''upV'', overFillVertical = ''overV'', downFillVertical = ''downV'',
      disabledFillVertical = ''disabledV'', disabledPressedFillVertical = ''disabledPressedV'',
      upFillHorizontal = ''upH'', overFillHorizontal = ''overH'',
      disabledFillHorizontal = ''disabledH'',
      enabledStroke = ''darker4'', disabledStroke = ''disabledDarker4''\<rparr>"
     "''SELECTED''"
     "\<lparr>button = \<lparr>fill = ''base'', stroke = ''none''\<rparr>,
      overlayForHorizGradient = \<lparr>fill = ''none'', stroke = ''none''\<rparr>\<rparr>"
     "\<lparr>upFill = ''base'', overFill = ''brighter4'', downFill = ''darker4'',
      disabledFill = ''disabledBase'', flat_disabledPressedFillVertical = ''disabledBase'',
      flat_enabledStroke = ''darker4'', flat_disabledStroke = ''disabledDarker4''\<rparr>"
     "\<lparr>fill = ''base'', stroke = ''none''\<rparr>" PRESSED]
  by simp

section \<open>The derived interaction state\<close>

lemma derived_invariant_step:
  "derivedValue p = recompute f (flags p) \<Longrightarrow>
   derivedValue (derivedStep f p h) = recompute f (flags (derivedStep f p h))"
  by (simp add: derivedStep_def Let_def)

lemma derived_invariant_foldl:
  "derivedValue p = recompute f (flags p) \<Longrightarrow>
   derivedValue (foldl (derivedStep f) p hs) = recompute f (flags (foldl (derivedStep f) p hs))"
  by (induction hs arbitrary: p) (simp_all add: derived_invariant_step)

lemma derived_invariant: "derivedValue (derivedRun f hs) = recompute f (flags (derivedRun f hs))"
  unfolding derivedRun_def
  by (rule derived_invariant_foldl) (simp add: InteractionStateProperty_new_def Let_def)

text \<open>
  C3. After every history of \<open>setOver\<close>, \<open>setDown\<close> and \<open>setEnabled\<close> operations the
  interaction state is the table's value at the current flags (over, down, enabled), for
  whatever table; so two histories that end in the same flags end in the same
  interaction state. Setting enabled to true leaves over and down as they are and makes
  the interaction state the table's value at the current over and down, enabled.
\<close>

theorem interaction_state_pure:
  "derivedValue (derivedRun f h1)
     = f (over (flags (derivedRun f h1))) (down (flags (derivedRun f h1)))
         (enabled (flags (derivedRun f h1)))
   \<and> (flags (derivedRun f h1) = flags (derivedRun f h2) \<longrightarrow>
        derivedValue (derivedRun f h1) = derivedValue (derivedRun f h2))
   \<and> derivedValue (derivedStep f (derivedRun f h1) (EnabledSet True))
     = f (over (flags (derivedRun f h1))) (down (flags (derivedRun f h1))) True
   \<and> over (flags (derivedStep f (derivedRun f h1) (EnabledSet True))) = over (flags (derivedRun f h1))
   \<and> down (flags (derivedStep f (derivedRun f h1) (EnabledSet True))) = down (flags (derivedRun f h1))"
proof -
  have 1: "derivedValue (derivedRun f h1) = recompute f (flags (derivedRun f h1))"
    and 2: "derivedValue (derivedRun f h2) = recompute f (flags (derivedRun f h2))"
    by (rule derived_invariant)+
  show ?thesis
    using 1 2 by (auto simp: recompute_def derivedStep_def Let_def)
qed

theorem interaction_state_pure_witness:
  "(let table = (\<lambda>ov dn en. if \<not> en then (if dn then DISABLED_PRESSED else DISABLED)
                   else if ov \<and> dn then PRESSED else if ov then OVER else IDLE)
    in derivedRun table [OverSet True, DownSet True, EnabledSet False, DownSet False, DownSet True]
       = \<lparr>flags = \<lparr>over = True, down = True, enabled = False\<rparr>, derivedValue = DISABLED_PRESSED\<rparr>
     \<and> derivedRun table [EnabledSet False, DownSet True, OverSet True]
       = \<lparr>flags = \<lparr>over = True, down = True, enabled = False\<rparr>, derivedValue = DISABLED_PRESSED\<rparr>
     \<and> derivedValue (derivedStep table
          (derivedRun table [EnabledSet False, DownSet True, OverSet True]) (EnabledSet True))
       = PRESSED)"
  using interaction_state_pure [of
      "\<lambda>ov dn en. if \<not> en then (if dn then DISABLED_PRESSED else DISABLED)
                   else if ov \<and> dn then PRESSED else if ov then OVER else IDLE"
      "[EnabledSet False, DownSet True, OverSet True]"
      "[OverSet True, DownSet True, EnabledSet False, DownSet False, DownSet True]"]
  by (simp add: derivedRun_def derivedStep_def InteractionStateProperty_new_def recompute_def Let_def)

section \<open>Assertions of the constructors\<close>

text \<open>
  C8, as the spec states it, fails: with assertions enabled, a Panel with negative
  margins around a content of 20 by 20 passes its one assertion, and its background is
  sized 18 by 18; and with assertions disabled, a Slider with the orientation
  \<open>''diagonal''\<close> fails no assertion.
\<close>

theorem unchecked_margin_and_disabled_assertions_counterexample:
  "Panel_new True \<lparr>xMargin = -1, yMargin = -1, panel_align = ''left'', panel_minWidth = 0\<rparr>
     (20, 20, True) = Inr (Some (18, 18))
   \<and> Slider_new False \<lparr>orientation = ''diagonal'', rotation = None\<rparr>
     = Inr \<lparr>orientation = ''diagonal'', rotation = None\<rparr>"
  by (simp add: Panel_new_def updateBackground_def panel_ALIGN_VALUES_def Slider_new_def
        js_assert_def Let_def)

text \<open>
  C8, amended. With assertions enabled, the constructor of RectangularButton fails the
  assertion on \<open>xAlign\<close> when it is not one of center, left, right, and the one on
  \<open>yAlign\<close> when it is not one of center, top, bottom; the constructor of Slider fails
  the assertion on an orientation that is neither horizontal nor vertical; and the
  constructor of ComboBox fails the assertion on the margins when one of them is not
  greater than 0; each before anything is built.
\<close>

theorem constructors_fail_fast:
  "(xAlign opts \<notin> set X_ALIGN_VALUES \<longrightarrow>
      RectangularButton_new True opts = Inl (AssertionError (''invalid xAlign: '' @ xAlign opts)))
   \<and> (xAlign opts \<in> set X_ALIGN_VALUES \<and> yAlign opts \<notin> set Y_ALIGN_VALUES \<longrightarrow>
      RectangularButton_new True opts = Inl (AssertionError (''invalid yAlign: '' @ yAlign opts)))
   \<and> (orientation sopts \<noteq> ''horizontal'' \<and> orientation sopts \<noteq> ''vertical'' \<longrightarrow>
      Slider_new True sopts = Inl (AssertionError (''invalid orientation: '' @ orientation sopts)))
   \<and> (xMargin copts \<le> 0 \<or> yMargin copts \<le> 0 \<longrightarrow>
      ComboBox_new True None copts = Inl (AssertionError ''margins must be > 0''))"
  by (auto simp: RectangularButton_new_def Slider_new_def ComboBox_new_def js_assert_def)

theorem constructors_fail_fast_witness:
  "RectangularButton_new True
     \<lparr>xMargin = 8, yMargin = 5, content = None, minWidth = 10, minHeight = 10,
      xAlign = ''middle'', yAlign = ''center'', cornerRadius = Some 4,
      buttonAppearanceStrategy = ThreeDAppearanceStrategy\<rparr>
   = Inl (AssertionError ''invalid xAlign: middle'')
   \<and> Slider_new True \<lparr>orientation = ''diagonal'', rotation = None\<rparr>
   = Inl (AssertionError ''invalid orientation: diagonal'')
   \<and> ComboBox_new True None
     \<lparr>xMargin = -1, yMargin = 8, align = ''left'', listPosition = ''below'',
      disabledOpacity = 0.5\<rparr>
   = Inl (AssertionError ''margins must be > 0'')"
  using constructors_fail_fast [of
     "\<lparr>xMargin = 8, yMargin = 5, content = None, minWidth = 10, minHeight = 10,
      xAlign = ''middle'', yAlign = ''center'', cornerRadius = Some 4,
      buttonAppearanceStrategy = ThreeDAppearanceStrategy\<rparr>"
     "\<lparr>orientation = ''diagonal'', rotation = None\<rparr>"
     "\<lparr>xMargin = -1, yMargin = 8, align = ''left'', listPosition = ''below'',
      disabledOpacity = 0.5\<rparr>"]
  by (simp add: X_ALIGN_VALUES_def)

end
